theory Spec2Isabelle
  imports Complex_Main
begin

section \<open>Python values, exceptions and results\<close>

text \<open>
  The values that reach the attributes of the parsed argument namespace of
  ConsensusCruncher.py: \<open>None\<close>, booleans, strings, floats and the function stored
  under \<open>func\<close>. A float is carried by its printed text (what \<open>'{}'.format\<close> shows);
  Python's \<open>float()\<close> itself is a parameter of the parser model below.
\<close>

datatype pyval = PNone | PBool bool | PStr string | PFloat string | PFunc string

datatype error =
    SystemExit nat
  | ValueError string
  | TypeError
  | AttributeError string
  | IndexError
  | NoSectionError string
  | FileNotFoundError string
  | FileExistsError string

type_synonym namespace = "string \<rightharpoonup> pyval"

text \<open>Sequencing of statements that may raise: the first exception ends the run.\<close>

definition bind_res :: "error + 'a \<Rightarrow> ('a \<Rightarrow> error + 'b) \<Rightarrow> error + 'b" where
  "bind_res r f = (case r of Inl e \<Rightarrow> Inl e | Inr x \<Rightarrow> f x)"

text \<open>Attribute access \<open>args.name\<close>: a missing attribute raises \<open>AttributeError\<close>.\<close>

definition getattr :: "namespace \<Rightarrow> string \<Rightarrow> error + pyval" where
  "getattr ns k = (case ns k of None \<Rightarrow> Inl (AttributeError k) | Some v \<Rightarrow> Inr v)"

text \<open>\<open>str(v)\<close>, as \<open>'{}'.format(v)\<close> prints a value.\<close>

fun py_str :: "pyval \<Rightarrow> string" where
  "py_str PNone = ''None''"
| "py_str (PBool b) = (if b then ''True'' else ''False'')"
| "py_str (PStr s) = s"
| "py_str (PFloat r) = r"
| "py_str (PFunc f) = f"

text \<open>\<open>v is True\<close>, \<open>v is False\<close> and \<open>v is None\<close>: identity with the three singletons.\<close>

definition is_True :: "pyval \<Rightarrow> bool" where
  "is_True v = (v = PBool True)"

definition is_False :: "pyval \<Rightarrow> bool" where
  "is_False v = (v = PBool False)"

definition is_None :: "pyval \<Rightarrow> bool" where
  "is_None v = (v = PNone)"

section \<open>The argparse behaviour the script relies on\<close>

text \<open>
  The \<open>type=\<close> callables used by the script: \<open>str\<close>, \<open>bool\<close> and \<open>float\<close>.
  \<open>bool(s)\<close> of a string is its non-emptiness. \<open>float(s)\<close> is the parameter \<open>fl\<close>
  (\<open>None\<close> where Python raises \<open>ValueError\<close>); argparse turns a failed conversion
  into \<open>parser.error\<close>, which exits with status 2.
\<close>

datatype argtype = TStr | TBool | TFloat

definition py_bool_of_str :: "string \<Rightarrow> bool" where
  "py_bool_of_str s = (s \<noteq> [])"

fun get_value :: "(string \<Rightarrow> string option) \<Rightarrow> argtype \<Rightarrow> string \<Rightarrow> error + pyval" where
  "get_value fl TStr s = Inr (PStr s)"
| "get_value fl TBool s = Inr (PBool (py_bool_of_str s))"
| "get_value fl TFloat s = (case fl s of None \<Rightarrow> Inl (SystemExit 2) | Some r \<Rightarrow> Inr (PFloat r))"

text \<open>\<open>_check_value\<close>: with \<open>choices\<close> given, a converted value outside them is an error.\<close>

definition check_value :: "pyval list option \<Rightarrow> pyval \<Rightarrow> error + pyval" where
  "check_value ch v =
     (case ch of None \<Rightarrow> Inr v
      | Some cs \<Rightarrow> if v \<in> set cs then Inr v else Inl (SystemExit 2))"

record action =
  a_dest :: string
  a_type :: argtype
  a_choices :: "pyval list option"
  a_default :: pyval

record parser =
  p_defaults :: namespace
  p_actions :: "action list"

definition new_parser :: parser where
  "new_parser = \<lparr>p_defaults = Map.empty, p_actions = []\<rparr>"

text \<open>
  \<open>set_defaults(**kw)\<close> updates the parser-level defaults and the default of every
  action already added whose dest is among the keywords.
\<close>

definition set_defaults :: "namespace \<Rightarrow> parser \<Rightarrow> parser" where
  "set_defaults kw p =
     p\<lparr>p_defaults := p_defaults p ++ kw,
       p_actions := map (\<lambda>a. case kw (a_dest a) of None \<Rightarrow> a | Some v \<Rightarrow> a\<lparr>a_default := v\<rparr>)
                        (p_actions p)\<rparr>"

text \<open>
  \<open>add_argument\<close>: when no \<open>default=\<close> is passed, the action takes the parser-level
  default of its dest if there is one at that moment, and \<open>None\<close> otherwise.
\<close>

definition add_argument ::
  "string \<Rightarrow> argtype \<Rightarrow> pyval list option \<Rightarrow> pyval option \<Rightarrow> parser \<Rightarrow> parser" where
  "add_argument d t ch dflt p =
     p\<lparr>p_actions := p_actions p @
        [\<lparr>a_dest = d, a_type = t, a_choices = ch,
          a_default = (case dflt of Some v \<Rightarrow> v
                       | None \<Rightarrow> (case p_defaults p d of Some v \<Rightarrow> v | None \<Rightarrow> PNone))\<rparr>]\<rparr>"

text \<open>
  \<open>parse_known_args\<close> of a subparser. The command line is given as the options that
  follow the subcommand, each as (dest, argument text), in order.
  \<^enum> every action's default is stored under its dest, unless the dest is already set;
  \<^enum> every parser-level default whose dest is still unset is stored;
  \<^enum> each option of the command line is converted, checked against the choices, stored;
  \<^enum> the default of every action not seen on the command line is converted when it
    is a string (the choices are not checked for defaults).
\<close>

fun store_action_defaults :: "action list \<Rightarrow> namespace \<Rightarrow> namespace" where
  "store_action_defaults [] ns = ns"
| "store_action_defaults (a # as) ns =
     store_action_defaults as
       (case ns (a_dest a) of None \<Rightarrow> ns(a_dest a \<mapsto> a_default a) | Some _ \<Rightarrow> ns)"

definition store_parser_defaults :: "namespace \<Rightarrow> namespace \<Rightarrow> namespace" where
  "store_parser_defaults dfl ns = (\<lambda>k. case ns k of None \<Rightarrow> dfl k | Some v \<Rightarrow> Some v)"

fun find_action :: "action list \<Rightarrow> string \<Rightarrow> action option" where
  "find_action [] d = None"
| "find_action (a # as) d = (if a_dest a = d then Some a else find_action as d)"

fun consume_options ::
  "(string \<Rightarrow> string option) \<Rightarrow> action list \<Rightarrow> (string \<times> string) list \<Rightarrow> namespace
     \<Rightarrow> error + namespace" where
  "consume_options fl acts [] ns = Inr ns"
| "consume_options fl acts ((d, s) # rest) ns =
     (case find_action acts d of
        None \<Rightarrow> Inl (SystemExit 2)
      | Some a \<Rightarrow>
          bind_res (get_value fl (a_type a) s) (\<lambda>v.
          bind_res (check_value (a_choices a) v) (\<lambda>v'.
          consume_options fl acts rest (ns(d \<mapsto> v')))))"

fun convert_defaults ::
  "(string \<Rightarrow> string option) \<Rightarrow> string list \<Rightarrow> action list \<Rightarrow> namespace \<Rightarrow> error + namespace" where
  "convert_defaults fl seen [] ns = Inr ns"
| "convert_defaults fl seen (a # as) ns =
     (if a_dest a \<in> set seen then convert_defaults fl seen as ns
      else (case a_default a of
              PStr s \<Rightarrow>
                (if ns (a_dest a) = Some (PStr s)
                 then bind_res (get_value fl (a_type a) s) (\<lambda>v.
                        convert_defaults fl seen as (ns(a_dest a \<mapsto> v)))
                 else convert_defaults fl seen as ns)
            | _ \<Rightarrow> convert_defaults fl seen as ns))"

definition parse_known_args ::
  "(string \<Rightarrow> string option) \<Rightarrow> parser \<Rightarrow> (string \<times> string) list \<Rightarrow> error + namespace" where
  "parse_known_args fl p cli =
     (let ns1 = store_action_defaults (p_actions p) Map.empty;
          ns2 = store_parser_defaults (p_defaults p) ns1
      in bind_res (consume_options fl (p_actions p) cli ns2) (\<lambda>ns3.
         convert_defaults fl (map fst cli) (p_actions p) ns3))"

section \<open>The two subparsers of the script\<close>

text \<open>The help texts: with a configuration file they double as defaults (lines 355-369).\<close>

definition fastq1_help :: string where
  "fastq1_help = ''FASTQ containing Read 1 of paired-end reads.''"

definition fastq2_help :: string where
  "fastq2_help = ''FASTQ containing Read 2 of paired-end reads.''"

definition output_help :: string where
  "output_help = ''Output directory, where barcode extracted FASTQ and BAM files will be placed in subdirectories 'fastq_tag' and 'bamfiles' respectively (dir will be created if they do not exist).''"

definition bwa_help :: string where
  "bwa_help = ''Path to executable bwa.''"

definition samtools_help :: string where
  "samtools_help = ''Path to executable samtools''"

definition ref_help :: string where
  "ref_help = ''Reference (BWA index).''"

definition cinput_help :: string where
  "cinput_help = ''Input BAM file.''"

definition coutput_help :: string where
  "coutput_help = ''Output directory, where a folder will be created for the BAM file and consensus sequences are outputted.''"

definition cleanup_help :: string where
  "cleanup_help = ''Remove intermediate files.''"

text \<open>
  \<open>bedfile = '{}/ConsensusCruncher/cytoBand.txt'.format(code_dir)\<close>; paths of the
  script's own directory are written relative to \<open>code_dir\<close>.
\<close>

definition bedfile :: string where
  "bedfile = ''ConsensusCruncher/cytoBand.txt''"

text \<open>The \<open>defaults\<close> dictionary of lines 355-369.\<close>

definition defaults :: namespace where
  "defaults =
     [''fastq1'' \<mapsto> PStr fastq1_help,
      ''fastq2'' \<mapsto> PStr fastq2_help,
      ''output'' \<mapsto> PStr output_help,
      ''name'' \<mapsto> PStr ''_R'',
      ''bwa'' \<mapsto> PStr bwa_help,
      ''ref'' \<mapsto> PStr ref_help,
      ''samtools'' \<mapsto> PStr samtools_help,
      ''bpattern'' \<mapsto> PNone,
      ''blist'' \<mapsto> PNone,
      ''bam'' \<mapsto> PStr cinput_help,
      ''c_output'' \<mapsto> PStr coutput_help,
      ''scorrect'' \<mapsto> PBool True,
      ''bedfile'' \<mapsto> PStr bedfile,
      ''cutoff'' \<mapsto> PFloat ''0.7'',
      ''cleanup'' \<mapsto> PStr cleanup_help]"

text \<open>
  A configuration file, as \<open>configparser\<close> reads it: the items of its two sections
  (\<open>None\<close> for a section the file lacks, where \<open>config.items\<close> raises
  \<open>NoSectionError\<close>; a file that cannot be read lacks both). All values are strings.
\<close>

record config =
  cfg_fastq2bam :: "(string \<rightharpoonup> string) option"
  cfg_consensus :: "(string \<rightharpoonup> string) option"

definition items_dict :: "(string \<rightharpoonup> string) \<Rightarrow> namespace" where
  "items_dict m = (\<lambda>k. map_option PStr (m k))"

text \<open>
  Lines 354-380: without \<open>--config\<close> no defaults are set on either subparser; with it,
  \<open>sub_a\<close> gets the dictionary updated with the fastq2bam section and \<open>sub_b\<close> the same
  dictionary updated further with the consensus section.
\<close>

definition config_defaults :: "config option \<Rightarrow> error + (parser \<times> parser)" where
  "config_defaults cfg =
     (case cfg of
        None \<Rightarrow> Inr (new_parser, new_parser)
      | Some c \<Rightarrow>
          (case cfg_fastq2bam c of
             None \<Rightarrow> Inl (NoSectionError ''fastq2bam'')
           | Some fa \<Rightarrow>
               (let d1 = defaults ++ items_dict fa
                in case cfg_consensus c of
                     None \<Rightarrow> Inl (NoSectionError ''consensus'')
                   | Some co \<Rightarrow>
                       Inr (set_defaults d1 new_parser,
                            set_defaults (d1 ++ items_dict co) new_parser))))"

text \<open>Lines 383-392.\<close>

definition sub_a_arguments :: "parser \<Rightarrow> parser" where
  "sub_a_arguments p =
     set_defaults [''func'' \<mapsto> PFunc ''fastq2bam'']
      (add_argument ''blist'' TStr None None
      (add_argument ''bpattern'' TStr None None
      (add_argument ''samtools'' TStr None None
      (add_argument ''ref'' TStr None None
      (add_argument ''bwa'' TStr None None
      (add_argument ''name'' TStr None None
      (add_argument ''output'' TStr None None
      (add_argument ''fastq2'' TStr None None
      (add_argument ''fastq1'' TStr None None p)))))))))"

text \<open>Lines 395-404.\<close>

definition sub_b_arguments :: "parser \<Rightarrow> parser" where
  "sub_b_arguments p =
     set_defaults [''func'' \<mapsto> PFunc ''consensus'']
      (add_argument ''cleanup'' TBool (Some [PBool True, PBool False]) None
      (add_argument ''cutoff'' TFloat None None
      (add_argument ''bedfile'' TStr None (Some (PStr bedfile))
      (add_argument ''scorrect'' TBool (Some [PBool True, PBool False]) None
      (add_argument ''samtools'' TStr None None
      (add_argument ''c_output'' TStr None None
      (add_argument ''bam'' TStr None None p)))))))"

datatype subcommand = Fastq2bam | Consensus

text \<open>
  \<open>args = main_p.parse_args()\<close> for a command line that names a subcommand. The
  configuration, if \<open>--config\<close> is given, comes as the path and what the file holds.
  The main parser sets \<open>config\<close> and \<open>subparser_name\<close>; the subparser fills a
  namespace of its own, whose attributes are then copied over those of the main
  parser. A key \<open>config\<close> or \<open>subparser_name\<close> of the configuration file reaches
  the subparser's namespace as a parser-level default and so replaces the value the
  main parser has set.
\<close>

definition subcommand_name :: "subcommand \<Rightarrow> string" where
  "subcommand_name sc = (case sc of Fastq2bam \<Rightarrow> ''fastq2bam'' | Consensus \<Rightarrow> ''consensus'')"

definition main_namespace :: "(string \<times> config) option \<Rightarrow> subcommand \<Rightarrow> namespace" where
  "main_namespace cf sc =
     [''config'' \<mapsto> (case cf of None \<Rightarrow> PNone | Some (c, _) \<Rightarrow> PStr c),
      ''subparser_name'' \<mapsto> PStr (subcommand_name sc)]"

definition parse_args ::
  "(string \<Rightarrow> string option) \<Rightarrow> (string \<times> config) option \<Rightarrow> subcommand
     \<Rightarrow> (string \<times> string) list \<Rightarrow> error + namespace" where
  "parse_args fl cf sc cli =
     bind_res (config_defaults (map_option snd cf)) (\<lambda>(pa, pb).
     bind_res (parse_known_args fl
                 (case sc of Fastq2bam \<Rightarrow> sub_a_arguments pa | Consensus \<Rightarrow> sub_b_arguments pb)
                 cli) (\<lambda>ns.
     Inr (main_namespace cf sc ++ ns)))"

section \<open>Strings and paths\<close>

text \<open>\<open>s.split(sep, 1)[0]\<close> for a non-empty \<open>sep\<close>: the text before its first occurrence.\<close>

fun before_sep :: "string \<Rightarrow> string \<Rightarrow> string" where
  "before_sep sep [] = []"
| "before_sep sep (c # cs) =
     (if take (length sep) (c # cs) = sep then [] else c # before_sep sep cs)"

text \<open>\<open>s.split(' ')\<close>: cut at every single space, empty pieces kept.\<close>

fun split_at :: "char \<Rightarrow> string \<Rightarrow> string \<Rightarrow> string list" where
  "split_at d cur [] = [rev cur]"
| "split_at d cur (c # cs) =
     (if c = d then rev cur # split_at d [] cs else split_at d (c # cur) cs)"

definition split_sp :: "string \<Rightarrow> string list" where
  "split_sp s = split_at (CHR '' '') [] s"

text \<open>
  \<open>s.split(None, 1)[0]\<close>: the first run of non-whitespace characters; \<open>IndexError\<close>
  when there is none. Whitespace is Python's \<open>str.isspace\<close> below code point 256.
\<close>

definition is_space :: "char \<Rightarrow> bool" where
  "is_space c = (c \<in> set [CHR 0x09, CHR 0x0A, CHR 0x0B, CHR 0x0C, CHR 0x0D, CHR 0x1C, CHR 0x1D,
                         CHR 0x1E, CHR 0x1F, CHR 0x20, CHR 0x85, CHR 0xA0])"

definition first_token :: "string \<Rightarrow> error + string" where
  "first_token s =
     (let t = takeWhile (\<lambda>c. \<not> is_space c) (dropWhile is_space s)
      in if t = [] then Inl IndexError else Inr t)"

text \<open>\<open>os.path.basename\<close>, and the directory a path lies in.\<close>

definition basename :: "string \<Rightarrow> string" where
  "basename p = rev (takeWhile (\<lambda>c. c \<noteq> CHR ''/'') (rev p))"

definition parent :: "string \<Rightarrow> string" where
  "parent p = rev (drop 1 (dropWhile (\<lambda>c. c \<noteq> CHR ''/'') (rev p)))"

text \<open>The directories \<open>os.makedirs(p)\<close> makes sure of: \<open>p\<close> and each of its ancestors.\<close>

fun prefixes_at_slash :: "string \<Rightarrow> string \<Rightarrow> string list" where
  "prefixes_at_slash seen [] = [seen]"
| "prefixes_at_slash seen (c # cs) =
     (if c = CHR ''/'' then seen # prefixes_at_slash (seen @ [c]) cs
      else prefixes_at_slash (seen @ [c]) cs)"

definition makedirs_paths :: "string \<Rightarrow> string list" where
  "makedirs_paths p = filter (\<lambda>d. d \<noteq> []) (prefixes_at_slash [] p)"

section \<open>The file system and the external programs\<close>

text \<open>
  An external invocation: \<open>os.system\<close> of one of the scripts of \<open>code_dir\<close> with its
  flags, each \<open>(flag, value)\<close> as the format string lays them out; or \<open>Popen\<close>/\<open>call\<close> of an
  argument vector.
\<close>

datatype command =
    System string "(string \<times> string) list"
  | Proc "string list"

text \<open>
  The state the script acts on: the files with their contents, the directories, the
  paths \<open>os.access(_, os.W_OK)\<close> holds of, and the external invocations made so far.
  The empty path stands for the working directory. Paths are taken as the script
  writes them: two spellings of one path (\<open>a//b\<close> and \<open>a/b\<close>, a relative and an
  absolute one) are two paths here, and the runs below use one spelling for each file.
\<close>

record world =
  files :: "string \<rightharpoonup> string"
  dirs :: "string set"
  writable :: "string set"
  trace :: "command list"

type_synonym 'a io = "(error \<times> world) + 'a"

definition bind_io :: "'a io \<Rightarrow> ('a \<Rightarrow> 'b io) \<Rightarrow> 'b io" where
  "bind_io r f = (case r of Inl e \<Rightarrow> Inl e | Inr x \<Rightarrow> f x)"

definition raise_in :: "world \<Rightarrow> error + 'a \<Rightarrow> 'a io" where
  "raise_in w r = (case r of Inl e \<Rightarrow> Inl (e, w) | Inr x \<Rightarrow> Inr x)"

definition attr :: "namespace \<Rightarrow> string \<Rightarrow> world \<Rightarrow> pyval io" where
  "attr ns k w = raise_in w (getattr ns k)"

text \<open>Where the script needs a string (concatenation, a path): anything else is a \<open>TypeError\<close>.\<close>

definition str_of :: "pyval \<Rightarrow> world \<Rightarrow> string io" where
  "str_of v w = (case v of PStr s \<Rightarrow> Inr s | _ \<Rightarrow> Inl (TypeError, w))"

text \<open>\<open>os.path.exists\<close>: a file or a directory under that very spelling of the path.\<close>

definition path_exists :: "world \<Rightarrow> string \<Rightarrow> bool" where
  "path_exists w p = (files w p \<noteq> None \<or> p \<in> dirs w)"

definition dir_exists :: "world \<Rightarrow> string \<Rightarrow> bool" where
  "dir_exists w d = (d = [] \<or> d \<in> dirs w)"

definition os_makedirs :: "string \<Rightarrow> world \<Rightarrow> world io" where
  "os_makedirs p w =
     (if path_exists w p then Inl (FileExistsError p, w)
      else Inr (w\<lparr>dirs := dirs w \<union> set (makedirs_paths p)\<rparr>))"

text \<open>\<open>os.rename\<close> and \<open>os.remove\<close> of a file; the script applies them to files only.\<close>

definition os_rename :: "string \<Rightarrow> string \<Rightarrow> world \<Rightarrow> world io" where
  "os_rename src dst w =
     (case files w src of
        None \<Rightarrow> Inl (FileNotFoundError src, w)
      | Some c \<Rightarrow>
          if dir_exists w (parent dst)
          then Inr (w\<lparr>files := (files w)(src := None, dst \<mapsto> c)\<rparr>)
          else Inl (FileNotFoundError src, w))"

definition os_remove :: "string \<Rightarrow> world \<Rightarrow> world io" where
  "os_remove p w =
     (case files w p of
        None \<Rightarrow> Inl (FileNotFoundError p, w)
      | Some _ \<Rightarrow> Inr (w\<lparr>files := (files w)(p := None)\<rparr>))"

text \<open>\<open>open(p, 'w')\<close> creates or truncates the file; its directory has to exist.\<close>

definition open_w :: "string \<Rightarrow> world \<Rightarrow> world io" where
  "open_w p w =
     (if dir_exists w (parent p) then Inr (w\<lparr>files := (files w)(p \<mapsto> [])\<rparr>)
      else Inl (FileNotFoundError p, w))"

definition open_read :: "string \<Rightarrow> world \<Rightarrow> string io" where
  "open_read p w = (case files w p of None \<Rightarrow> Inl (FileNotFoundError p, w) | Some c \<Rightarrow> Inr c)"

text \<open>
  Running an external program: \<open>ext\<close> says which files it leaves behind; the script
  never looks at its exit status, so the run goes on whatever happened. The
  executables are taken to be there: \<open>os.system\<close> returns a status also for a missing
  script, while \<open>call\<close> and \<open>Popen\<close> raise \<open>FileNotFoundError\<close> for a missing
  executable, a case this model leaves out.
\<close>

definition run :: "(command \<Rightarrow> (string \<rightharpoonup> string) \<Rightarrow> (string \<rightharpoonup> string)) \<Rightarrow> command \<Rightarrow> world \<Rightarrow> world io" where
  "run ext c w = Inr (w\<lparr>files := ext c (files w), trace := trace w @ [c]\<rparr>)"

text \<open>
  Lines 80-83 and 160: \<open>if not os.path.exists(d) and os.access(args.output, os.W_OK):
  os.makedirs(d)\<close>; \<open>args.output\<close> is read only when \<open>d\<close> does not exist.
\<close>

definition make_if_absent :: "namespace \<Rightarrow> string \<Rightarrow> world \<Rightarrow> world io" where
  "make_if_absent ns d w =
     (if path_exists w d then Inr w
      else bind_io (attr ns ''output'' w) (\<lambda>ov.
           bind_io (str_of ov w) (\<lambda>out.
           if out \<in> writable w then os_makedirs d w else Inr w)))"

section \<open>sort_index (lines 121-140)\<close>

definition sort_index ::
  "(command \<Rightarrow> (string \<rightharpoonup> string) \<Rightarrow> (string \<rightharpoonup> string)) \<Rightarrow> string \<Rightarrow> pyval \<Rightarrow> world
     \<Rightarrow> (string \<times> world) io" where
  "sort_index ext bam samtools w =
     (let identifier = before_sep ''.bam'' bam;
          sorted_bam = identifier @ ''.sorted.bam''
      in bind_io (str_of samtools w) (\<lambda>st.
         bind_io (run ext (Proc (split_sp (st @ '' view -bu '' @ bam))) w) (\<lambda>w1.
         bind_io (open_w sorted_bam w1) (\<lambda>w2.
         bind_io (run ext (Proc (split_sp (st @ '' sort -''))) w2) (\<lambda>w3.
         bind_io (os_remove bam w3) (\<lambda>w4.
         bind_io (run ext (Proc (split_sp (py_str samtools @ '' index '' @ sorted_bam))) w4) (\<lambda>w5.
         Inr (sorted_bam, w5))))))))"

section \<open>consensus (lines 143-301)\<close>

type_synonym ext = "command \<Rightarrow> (string \<rightharpoonup> string) \<Rightarrow> (string \<rightharpoonup> string)"

text \<open>Lines 163-181: the SSCS stage. Returns the sorted SSCS and singleton files.\<close>

definition stage_sscs ::
  "ext \<Rightarrow> namespace \<Rightarrow> string \<Rightarrow> string \<Rightarrow> world \<Rightarrow> (string \<times> string \<times> world) io" where
  "stage_sscs ext ns sample_dir identifier w =
     bind_io (os_makedirs (sample_dir @ ''/sscs'') w) (\<lambda>w1.
     let sscs = sample_dir @ ''/sscs/'' @ identifier @ ''.sscs.bam'';
         sing = sample_dir @ ''/sscs/'' @ identifier @ ''.singleton.bam''
     in
     bind_io (attr ns ''bedfile'' w1) (\<lambda>bed.
     bind_io (attr ns ''bam'' w1) (\<lambda>bam.
     bind_io (attr ns ''cutoff'' w1) (\<lambda>cutoff.
     bind_io
       (if is_False bed
        then run ext (System ''ConsensusCruncher/SSCS_maker.py''
                        [(''--infile'', py_str bam), (''--outfile'', sscs),
                         (''--cutoff'', py_str cutoff)]) w1
        else run ext (System ''ConsensusCruncher/SSCS_maker.py''
                        [(''--infile'', py_str bam), (''--outfile'', sscs),
                         (''--cutoff'', py_str cutoff), (''--bedfile'', py_str bed)]) w1) (\<lambda>w2.
     bind_io (attr ns ''samtools'' w2) (\<lambda>st.
     bind_io (sort_index ext sscs st w2) (\<lambda>(sscs', w3).
     bind_io (sort_index ext sing st w3) (\<lambda>(sing', w4).
     Inr (sscs', sing', w4)))))))))"

text \<open>Lines 183-206: the DCS stage. Returns the sorted DCS and unpaired-SSCS files.\<close>

definition stage_dcs ::
  "ext \<Rightarrow> namespace \<Rightarrow> string \<Rightarrow> string \<Rightarrow> string \<Rightarrow> world \<Rightarrow> (string \<times> string \<times> world) io" where
  "stage_dcs ext ns sample_dir identifier sscs w =
     bind_io (os_makedirs (sample_dir @ ''/dcs'') w) (\<lambda>w1.
     let dcs = sample_dir @ ''/dcs/'' @ identifier @ ''.dcs.bam'';
         sscs_sing = sample_dir @ ''/dcs/'' @ identifier @ ''.sscs.singleton.bam''
     in
     bind_io (os_rename (sample_dir @ ''/sscs/'' @ identifier @ ''.stats.txt'')
                        (sample_dir @ ''/dcs/'' @ identifier @ ''.stats.txt'') w1) (\<lambda>w2.
     bind_io (os_rename (sample_dir @ ''/sscs/'' @ identifier @ ''.time_tracker.txt'')
                        (sample_dir @ ''/dcs/'' @ identifier @ ''.time_tracker.txt'') w2) (\<lambda>w3.
     bind_io (attr ns ''bedfile'' w3) (\<lambda>bed.
     bind_io
       (if is_False bed
        then run ext (System ''ConsensusCruncher/DCS_maker.py''
                        [(''--infile'', sscs), (''--outfile'', dcs)]) w3
        else run ext (System ''ConsensusCruncher/DCS_maker.py''
                        [(''--infile'', sscs), (''--outfile'', dcs),
                         (''--bedfile'', py_str bed)]) w3) (\<lambda>w4.
     bind_io (attr ns ''samtools'' w4) (\<lambda>st.
     bind_io (sort_index ext dcs st w4) (\<lambda>(dcs', w5).
     bind_io (sort_index ext sscs_sing st w5) (\<lambda>(sscs_sing', w6).
     Inr (dcs', sscs_sing', w6)))))))))"

text \<open>
  Lines 212-273, the body of \<open>if args.scorrect is True\<close>: singleton correction, the
  merge SSCS + SC, the second DCS run and the merge of all unique molecules.
\<close>

definition stage_sc ::
  "ext \<Rightarrow> namespace \<Rightarrow> string \<Rightarrow> string \<Rightarrow> string \<Rightarrow> string \<Rightarrow> world \<Rightarrow> world io" where
  "stage_sc ext ns sample_dir identifier sscs sing w =
     bind_io (os_makedirs (sample_dir @ ''/sscs_sc'') w) (\<lambda>w1.
     bind_io (os_rename (sample_dir @ ''/dcs/'' @ identifier @ ''.stats.txt'')
                        (sample_dir @ ''/sscs/'' @ identifier @ ''.stats.txt'') w1) (\<lambda>w2.
     bind_io (os_rename (sample_dir @ ''/dcs/'' @ identifier @ ''.time_tracker.txt'')
                        (sample_dir @ ''/sscs/'' @ identifier @ ''.time_tracker.txt'') w2) (\<lambda>w3.
     bind_io (attr ns ''bedfile'' w3) (\<lambda>bed.
     bind_io
       (if is_False bed
        then run ext (System ''ConsensusCruncher/singleton_correction.py''
                        [(''--singleton'', sing)]) w3
        else run ext (System ''ConsensusCruncher/singleton_correction.py''
                        [(''--singleton'', sing), (''--bedfile'', py_str bed)]) w3) (\<lambda>w4.
     bind_io (attr ns ''samtools'' w4) (\<lambda>st.
     let sscs_cor = sample_dir @ ''/sscs_sc/'' @ identifier @ ''.sscs.correction.bam'' in
     bind_io (os_rename (sample_dir @ ''/sscs/'' @ identifier @ ''.sscs.correction.bam'')
                        sscs_cor w4) (\<lambda>w5.
     bind_io (sort_index ext sscs_cor st w5) (\<lambda>(sscs_cor', w6).
     let sing_cor = sample_dir @ ''/sscs_sc/'' @ identifier @ ''.singleton.correction.bam'' in
     bind_io (os_rename (sample_dir @ ''/sscs/'' @ identifier @ ''.singleton.correction.bam'')
                        sing_cor w6) (\<lambda>w7.
     bind_io (sort_index ext sing_cor st w7) (\<lambda>(sing_cor', w8).
     let uncorrected = sample_dir @ ''/sscs_sc/'' @ identifier @ ''.uncorrected.bam'' in
     bind_io (os_rename (sample_dir @ ''/sscs/'' @ identifier @ ''.uncorrected.bam'')
                        uncorrected w8) (\<lambda>w9.
     bind_io (sort_index ext uncorrected st w9) (\<lambda>(uncorrected', w10).
     let sscs_sc = sample_dir @ ''/sscs_sc/'' @ identifier @ ''.sscs.sc.bam'' in
     bind_io (run ext (Proc (split_sp (py_str st @ '' merge '' @ sscs_sc @ '' '' @ sscs @ '' ''
                                        @ sscs_cor' @ '' '' @ sing_cor'))) w10) (\<lambda>w11.
     bind_io (sort_index ext sscs_sc st w11) (\<lambda>(sscs_sc', w12).
     bind_io (os_makedirs (sample_dir @ ''/dcs_sc'') w12) (\<lambda>w13.
     let dcs_sc = sample_dir @ ''/dcs_sc/'' @ identifier @ ''.dcs.sc.bam'' in
     bind_io (os_rename (sample_dir @ ''/sscs/'' @ identifier @ ''.stats.txt'')
                        (sample_dir @ ''/dcs_sc/'' @ identifier @ ''.stats.txt'') w13) (\<lambda>w14.
     bind_io (os_rename (sample_dir @ ''/sscs/'' @ identifier @ ''.time_tracker.txt'')
                        (sample_dir @ ''/dcs_sc/'' @ identifier @ ''.time_tracker.txt'') w14) (\<lambda>w15.
     bind_io
       (if is_False bed
        then run ext (System ''ConsensusCruncher/DCS_maker.py''
                        [(''--infile'', sscs_sc'), (''--outfile'', dcs_sc)]) w15
        else run ext (System ''ConsensusCruncher/DCS_maker.py''
                        [(''--infile'', sscs_sc'), (''--outfile'', dcs_sc),
                         (''--bedfile'', py_str bed)]) w15) (\<lambda>w16.
     bind_io (sort_index ext dcs_sc st w16) (\<lambda>(dcs_sc', w17).
     let sscs_sc_sing = sample_dir @ ''/dcs_sc/'' @ identifier @ ''.sscs.sc.singleton.bam'' in
     bind_io (sort_index ext sscs_sc_sing st w17) (\<lambda>(sscs_sc_sing', w18).
     let all_unique = sample_dir @ ''/dcs_sc/'' @ identifier @ ''.all.unique.dcs.bam'' in
     bind_io (run ext (Proc (split_sp (py_str st @ '' merge '' @ all_unique @ '' '' @ dcs_sc' @ '' ''
                                        @ sscs_sc_sing' @ '' '' @ uncorrected'))) w18) (\<lambda>w19.
     bind_io (sort_index ext all_unique st w19) (\<lambda>(all_unique', w20).
     Inr w20))))))))))))))))))))))"

text \<open>Lines 275-283: statistics, timing log, plot and family table go to the sample directory.\<close>

definition move_to_sample_dir :: "string \<Rightarrow> string \<Rightarrow> world \<Rightarrow> world io" where
  "move_to_sample_dir sample_dir identifier w =
     bind_io (os_rename (sample_dir @ ''/dcs_sc/'' @ identifier @ ''.stats.txt'')
                        (sample_dir @ ''/'' @ identifier @ ''.stats.txt'') w) (\<lambda>w1.
     bind_io (os_rename (sample_dir @ ''/dcs_sc/'' @ identifier @ ''.time_tracker.txt'')
                        (sample_dir @ ''/'' @ identifier @ ''.time_tracker.txt'') w1) (\<lambda>w2.
     bind_io (os_rename (sample_dir @ ''/sscs/'' @ identifier @ ''_tag_fam_size.png'')
                        (sample_dir @ ''/'' @ identifier @ ''_tag_fam_size.png'') w2) (\<lambda>w3.
     os_rename (sample_dir @ ''/sscs/'' @ identifier @ ''.read_families.txt'')
               (sample_dir @ ''/'' @ identifier @ ''.read_families.txt'') w3)))"

text \<open>Lines 287-301, the body of \<open>if args.cleanup is True\<close>, in the order of the source.\<close>

definition cleanup_paths :: "string \<Rightarrow> string \<Rightarrow> string list" where
  "cleanup_paths sample_dir identifier =
     [sample_dir @ ''/'' @ identifier @ ''.time_tracker.txt'',
      sample_dir @ ''/sssc/'' @ identifier @ ''.badReads.bam'',
      sample_dir @ ''/dcs/'' @ identifier @ ''.sscs.singleton.sorted.bam'',
      sample_dir @ ''/dcs/'' @ identifier @ ''.sscs.singleton.sorted.bam.bai'',
      sample_dir @ ''/sssc_sc/'' @ identifier @ ''.singleton.correction.sorted.bam'',
      sample_dir @ ''/sssc_sc/'' @ identifier @ ''.singleton.correction.sorted.bam.bai'',
      sample_dir @ ''/sssc_sc/'' @ identifier @ ''.sscs.correction.sorted.bam'',
      sample_dir @ ''/sssc_sc/'' @ identifier @ ''.sscs.correction.sorted.bam.bai'',
      sample_dir @ ''/sssc_sc/'' @ identifier @ ''.uncorrected.sorted.bam'',
      sample_dir @ ''/sssc_sc/'' @ identifier @ ''.uncorrected.sorted.bam.bai'',
      sample_dir @ ''/dcs_sc/'' @ identifier @ ''.sscs.sc.singleton.sorted.bam'',
      sample_dir @ ''/dcs_sc/'' @ identifier @ ''.sscs.sc.singleton.sorted.bam.bai'']"

fun remove_all :: "string list \<Rightarrow> world \<Rightarrow> world io" where
  "remove_all [] w = Inr w"
| "remove_all (p # ps) w = bind_io (os_remove p w) (remove_all ps)"

definition consensus :: "ext \<Rightarrow> namespace \<Rightarrow> world \<Rightarrow> world io" where
  "consensus ext ns w =
     bind_io (attr ns ''bam'' w) (\<lambda>bamv.
     bind_io (str_of bamv w) (\<lambda>bam.
     let identifier = before_sep ''.bam'' (basename bam) in
     bind_io (attr ns ''c_output'' w) (\<lambda>cout.
     let sample_dir = py_str cout @ ''/'' @ identifier in
     bind_io (make_if_absent ns sample_dir w) (\<lambda>w1.
     bind_io (stage_sscs ext ns sample_dir identifier w1) (\<lambda>(sscs, sing, w2).
     bind_io (stage_dcs ext ns sample_dir identifier sscs w2) (\<lambda>(dcs, sscs_sing, w3).
     bind_io (attr ns ''scorrect'' w3) (\<lambda>sc.
     bind_io (if is_True sc then stage_sc ext ns sample_dir identifier sscs sing w3
              else Inr w3) (\<lambda>w4.
     bind_io (move_to_sample_dir sample_dir identifier w4) (\<lambda>w5.
     bind_io (attr ns ''cleanup'' w5) (\<lambda>cl.
     if is_True cl then remove_all (cleanup_paths sample_dir identifier) w5
     else Inr w5))))))))))"

section \<open>fastq2bam (lines 57-118)\<close>

text \<open>\<open>s.split(sep, 1)[0]\<close> with \<open>sep = args.name\<close>: \<open>None\<close> splits at whitespace, the empty
  separator raises \<open>ValueError\<close>.\<close>

definition split_head :: "pyval \<Rightarrow> string \<Rightarrow> world \<Rightarrow> string io" where
  "split_head sep s w =
     (case sep of
        PNone \<Rightarrow> raise_in w (first_token s)
      | PStr p \<Rightarrow> if p = [] then Inl (ValueError ''empty separator'', w) else Inr (before_sep p s)
      | _ \<Rightarrow> Inl (TypeError, w))"

definition fastq2bam :: "ext \<Rightarrow> namespace \<Rightarrow> world \<Rightarrow> world io" where
  "fastq2bam ext ns w =
     bind_io (attr ns ''output'' w) (\<lambda>out.
     let fastq_dir = py_str out @ ''/fastq_tag'';
         bam_dir = py_str out @ ''/bamfiles''
     in
     bind_io (make_if_absent ns fastq_dir w) (\<lambda>w1.
     bind_io (make_if_absent ns bam_dir w1) (\<lambda>w2.
     bind_io (attr ns ''fastq1'' w2) (\<lambda>f1v.
     bind_io (str_of f1v w2) (\<lambda>f1.
     bind_io (attr ns ''name'' w2) (\<lambda>name.
     bind_io (split_head name (basename f1) w2) (\<lambda>filename.
     let outfile = fastq_dir @ ''/'' @ filename in
     bind_io (attr ns ''blist'' w2) (\<lambda>bl.
     bind_io (attr ns ''bpattern'' w2) (\<lambda>bp.
     bind_io (attr ns ''fastq2'' w2) (\<lambda>f2.
     bind_io
       (if \<not> is_None bl \<and> \<not> is_None bp
        then run ext (System ''ConsensusCruncher/extract_barcodes.py''
                        [(''--read1'', f1), (''--read2'', py_str f2), (''--outfile'', outfile),
                         (''--bpattern'', py_str bp), (''--blist'', py_str bl)]) w2
        else if is_None bl
        then run ext (System ''ConsensusCruncher/extract_barcodes.py''
                        [(''--read1'', f1), (''--read2'', py_str f2), (''--outfile'', outfile),
                         (''--bpattern'', py_str bp)]) w2
        else run ext (System ''ConsensusCruncher/extract_barcodes.py''
                        [(''--read1'', f1), (''--read2'', py_str f2), (''--outfile'', outfile),
                         (''--blist'', py_str bl)]) w2) (\<lambda>w3.
     bind_io (attr ns ''bwa'' w3) (\<lambda>bwav.
     bind_io (str_of bwav w3) (\<lambda>bwa.
     let bwa_cmd = bwa @ '' mem -M -t4 -R'';
         bwa_id = ''@RG'' @ [CHR 0x09] @ ''ID:1'' @ [CHR 0x09] @ ''SM:'' @ filename
                  @ [CHR 0x09] @ ''PL:Illumina''
     in
     bind_io (attr ns ''ref'' w3) (\<lambda>ref.
     let bwa_args = py_str ref @ '' '' @ outfile @ ''_barcode_R1.fastq '' @ outfile
                    @ ''_barcode_R2.fastq''
     in
     bind_io (run ext (Proc (split_sp bwa_cmd @ [bwa_id] @ split_sp bwa_args)) w3) (\<lambda>w4.
     bind_io (attr ns ''samtools'' w4) (\<lambda>stv.
     bind_io (str_of stv w4) (\<lambda>st.
     bind_io (run ext (Proc (split_sp (st @ '' view -bhS -''))) w4) (\<lambda>w5.
     bind_io (open_w (bam_dir @ ''/'' @ filename @ ''.bam'') w5) (\<lambda>w6.
     bind_io (run ext (Proc (split_sp (st @ '' sort -''))) w6) (\<lambda>w7.
     run ext (Proc (split_sp (st @ '' index '' @ bam_dir @ ''/'' @ filename @ ''.bam''))) w7
     ))))))))))))))))))))"

section \<open>The main program (lines 304-442)\<close>

text \<open>
  \<open>re.findall(r'[^...]', v)\<close> for a negated character class: the characters of \<open>v\<close>
  outside the class, \<open>TypeError\<close> when \<open>v\<close> is not a string. \<open>re.search\<close> with such
  a class finds the first of them.
\<close>

definition findall_outside :: "string \<Rightarrow> pyval \<Rightarrow> world \<Rightarrow> string io" where
  "findall_outside cls v w = bind_io (str_of v w) (\<lambda>s. Inr (filter (\<lambda>c. c \<notin> set cls) s))"

definition search_outside :: "string \<Rightarrow> string \<Rightarrow> char option" where
  "search_outside cls s = find (\<lambda>c. c \<notin> set cls) s"

text \<open>
  \<open>str.splitlines()\<close>: the line boundaries below code point 256; \<open>\r\n\<close> is one
  boundary, and there is no empty last line after a final boundary.
\<close>

definition is_linebreak :: "char \<Rightarrow> bool" where
  "is_linebreak c =
     (c \<in> set [CHR 0x0A, CHR 0x0B, CHR 0x0C, CHR 0x0D, CHR 0x1C, CHR 0x1D, CHR 0x1E, CHR 0x85])"

fun splitlines_from :: "string \<Rightarrow> string \<Rightarrow> string list" where
  "splitlines_from cur [] = (if cur = [] then [] else [rev cur])"
| "splitlines_from cur [c] =
     (if is_linebreak c then [rev cur] else [rev (c # cur)])"
| "splitlines_from cur (c # d # cs) =
     (if c = CHR 0x0D \<and> d = CHR 0x0A then rev cur # splitlines_from [] cs
      else if is_linebreak c then rev cur # splitlines_from [] (d # cs)
      else splitlines_from (c # cur) (d # cs))"

definition splitlines :: "string \<Rightarrow> string list" where
  "splitlines s = splitlines_from [] s"

text \<open>The arguments the main program requires of each subcommand (lines 414-415, 435).\<close>

definition fastq2bam_required :: "string list" where
  "fastq2bam_required = [''fastq1'', ''fastq2'', ''output'', ''bwa'', ''ref'', ''samtools'']"

definition consensus_required :: "string list" where
  "consensus_required = [''bam'', ''c_output'', ''samtools'']"

fun any_none :: "namespace \<Rightarrow> string list \<Rightarrow> world \<Rightarrow> bool io" where
  "any_none ns [] w = Inr False"
| "any_none ns (k # ks) w =
     bind_io (attr ns k w) (\<lambda>v. if is_None v then Inr True else any_none ns ks w)"

text \<open>
  \<open>args.func(args)\<close>: the function stored under \<open>func\<close> by the subparser that parsed
  the command line; calling anything else is a \<open>TypeError\<close>.
\<close>

definition call_func :: "ext \<Rightarrow> namespace \<Rightarrow> world \<Rightarrow> world io" where
  "call_func ext ns w =
     bind_io (attr ns ''func'' w) (\<lambda>f.
     if f = PFunc ''fastq2bam'' then fastq2bam ext ns w
     else if f = PFunc ''consensus'' then consensus ext ns w
     else Inl (TypeError, w))"

text \<open>
  Lines 413-433, the fastq2bam branch. \<open>sub_a.error\<close> prints the usage and exits with
  status 2. The chain is kept as written: the barcode pattern is matched against the
  class \<open>[^A|C|G|T|N]\<close> before \<open>args.blist\<close> is looked at.
\<close>

definition check_fastq2bam :: "ext \<Rightarrow> namespace \<Rightarrow> world \<Rightarrow> world io" where
  "check_fastq2bam ext ns w =
     bind_io (any_none ns fastq2bam_required w) (\<lambda>missing.
     if missing then Inl (SystemExit 2, w)
     else
     bind_io (attr ns ''bpattern'' w) (\<lambda>bp.
     bind_io (attr ns ''blist'' w) (\<lambda>bl.
     if is_None bp \<and> is_None bl then Inl (SystemExit 2, w)
     else
     bind_io (findall_outside ''A|C|G|T|N'' bp w) (\<lambda>bad.
     if bad \<noteq> []
     then Inl (ValueError ''Invalid barcode pattern containing characters other than A, C, G, T, and N.'', w)
     else if \<not> is_None bl
     then bind_io (str_of bl w) (\<lambda>path.
          bind_io (open_read path w) (\<lambda>content.
          let blist = splitlines content in
          if search_outside ''ACGTN'' (concat blist) \<noteq> None
          then Inl (ValueError ''List contains invalid barcodes. Please specify barcodes with A|C|G|T.'', w)
          else call_func ext ns w))
     else call_func ext ns w))))"

text \<open>Lines 434-440, the consensus branch.\<close>

definition check_consensus :: "ext \<Rightarrow> namespace \<Rightarrow> world \<Rightarrow> world io" where
  "check_consensus ext ns w =
     bind_io (any_none ns consensus_required w) (\<lambda>missing.
     if missing then Inl (SystemExit 2, w) else call_func ext ns w)"

text \<open>
  Lines 409-442: the branch is chosen by \<open>args.subparser_name\<close>; for \<open>None\<close> and
  for any other name than the two subcommands the help is printed and nothing else is
  done.
\<close>

definition dispatch :: "ext \<Rightarrow> namespace \<Rightarrow> world \<Rightarrow> world io" where
  "dispatch ext args w =
     bind_io (attr args ''subparser_name'' w) (\<lambda>name.
     if is_None name then Inr w
     else if name = PStr ''fastq2bam'' then check_fastq2bam ext args w
     else if name = PStr ''consensus'' then check_consensus ext args w
     else Inr w)"

text \<open>
  The whole program for a command line \<open>[-c CONFIG] [SUBCOMMAND options]\<close>. The
  configuration file is read before the arguments are parsed; without a subcommand
  \<open>args.subparser_name\<close> is \<open>None\<close> and the program prints the help.
\<close>

definition main ::
  "(string \<Rightarrow> string option) \<Rightarrow> ext \<Rightarrow> (string \<times> config) option \<Rightarrow> subcommand option
     \<Rightarrow> (string \<times> string) list \<Rightarrow> world \<Rightarrow> world io" where
  "main fl ext cf sc cli w =
     bind_io (raise_in w (config_defaults (map_option snd cf))) (\<lambda>_.
     case sc of
       None \<Rightarrow> Inr w
     | Some s \<Rightarrow>
         bind_io (raise_in w (parse_args fl cf s cli)) (\<lambda>args.
         dispatch ext args w))"

section \<open>The external programs, by their artifacts\<close>

text \<open>
  Modelled from the spec: the engine scripts \<open>SSCS_maker.py\<close>, \<open>DCS_maker.py\<close> and
  \<open>singleton_correction.py\<close> and the \<open>samtools\<close> binary are not part of the source
  at hand. Each is modelled by the artifacts the specification lists for it (section
  6: alignment files and indexes, statistics file, timing log, plot), under the names
  \<open>consensus\<close> reads them from. It serves to run \<open>consensus\<close> on a concrete input.
\<close>

definition flag :: "(string \<times> string) list \<Rightarrow> string \<Rightarrow> string" where
  "flag fs k = (case map_of fs k of Some v \<Rightarrow> v | None \<Rightarrow> [])"

fun touch :: "string list \<Rightarrow> (string \<rightharpoonup> string) \<Rightarrow> (string \<rightharpoonup> string)" where
  "touch [] F = F"
| "touch (p # ps) F = touch ps (F(p \<mapsto> []))"

definition tools :: ext where
  "tools c F =
     (case c of
        System script fl \<Rightarrow>
          if script = ''ConsensusCruncher/SSCS_maker.py''
          then (let x = before_sep ''.sscs.bam'' (flag fl ''--outfile'')
                in touch [x @ ''.sscs.bam'', x @ ''.singleton.bam'', x @ ''.badReads.bam'',
                          x @ ''.stats.txt'', x @ ''.time_tracker.txt'',
                          x @ ''_tag_fam_size.png'', x @ ''.read_families.txt''] F)
          else if script = ''ConsensusCruncher/DCS_maker.py''
          then (let out = flag fl ''--outfile'';
                    x = before_sep ''.dcs'' out;
                    sc = before_sep ''.bam'' (drop (length x + 4) out)
                in touch [out, x @ ''.sscs'' @ sc @ ''.singleton.bam''] F)
          else if script = ''ConsensusCruncher/singleton_correction.py''
          then (let x = before_sep ''.singleton'' (flag fl ''--singleton'')
                in touch [x @ ''.sscs.correction.bam'', x @ ''.singleton.correction.bam'',
                          x @ ''.uncorrected.bam''] F)
          else F
      | Proc argv \<Rightarrow>
          if length argv = 3 \<and> argv ! 1 = ''index'' \<and> F (argv ! 2) \<noteq> None
          then touch [argv ! 2 @ ''.bai''] F
          else if 3 \<le> length argv \<and> argv ! 1 = ''merge''
          then touch [argv ! 2] F
          else F)"

section \<open>Notions used to state the properties\<close>

text \<open>The \<open>type=\<close> of the option with a given dest, in the subparser of a subcommand.\<close>

definition option_type :: "subcommand \<Rightarrow> string \<Rightarrow> argtype option" where
  "option_type sc d =
     map_option a_type
       (find_action (p_actions (case sc of Fastq2bam \<Rightarrow> sub_a_arguments new_parser
                                | Consensus \<Rightarrow> sub_b_arguments new_parser)) d)"

text \<open>The attribute of a parse result, \<open>None\<close> when parsing ended in an error.\<close>

definition parsed :: "error + namespace \<Rightarrow> string \<Rightarrow> pyval option" where
  "parsed r k = (case r of Inl _ \<Rightarrow> None | Inr ns \<Rightarrow> ns k)"

text \<open>The exception a run ended with, and the state it left.\<close>

definition raised :: "world io \<Rightarrow> error option" where
  "raised r = (case r of Inl (e, w) \<Rightarrow> Some e | Inr w \<Rightarrow> None)"

definition final_world :: "world io \<Rightarrow> world" where
  "final_world r = (case r of Inl (e, w) \<Rightarrow> w | Inr w \<Rightarrow> w)"

text \<open>The scripts started through \<open>os.system\<close>, in order, with their flags.\<close>

fun system_calls :: "command list \<Rightarrow> (string \<times> (string \<times> string) list) list" where
  "system_calls [] = []"
| "system_calls (System s fs # cs) = (s, fs) # system_calls cs"
| "system_calls (Proc argv # cs) = system_calls cs"

text \<open>An attribute that is set and is not \<open>None\<close>.\<close>

definition present :: "namespace \<Rightarrow> string \<Rightarrow> bool" where
  "present ns k = (case ns k of None \<Rightarrow> False | Some v \<Rightarrow> \<not> is_None v)"

text \<open>The attributes each branch of the main program reads, \<open>func\<close> included.\<close>

definition fastq2bam_attrs :: "string list" where
  "fastq2bam_attrs = [''fastq1'', ''fastq2'', ''output'', ''bwa'', ''ref'', ''samtools'',
                      ''bpattern'', ''blist'', ''name'', ''func'']"

definition consensus_attrs :: "string list" where
  "consensus_attrs = [''bam'', ''c_output'', ''output'', ''bedfile'', ''cutoff'', ''samtools'',
                      ''scorrect'', ''cleanup'', ''func'']"

text \<open>
  What a run shows from outside: the exception it ended with, which of the given
  paths are files afterwards, and the scripts it started.
\<close>

definition outcome ::
  "world io \<Rightarrow> string list
     \<Rightarrow> error option \<times> string list \<times> (string \<times> (string \<times> string) list) list" where
  "outcome r ps =
     (case r of
        Inl (e, w) \<Rightarrow> (Some e, filter (\<lambda>p. files w p \<noteq> None) ps, system_calls (trace w))
      | Inr w \<Rightarrow> (None, filter (\<lambda>p. files w p \<noteq> None) ps, system_calls (trace w)))"

text \<open>Two namespaces that agree on the given attributes.\<close>

definition agree_on :: "string list \<Rightarrow> namespace \<Rightarrow> namespace \<Rightarrow> bool" where
  "agree_on ks ns ns' = list_all (\<lambda>k. ns k = ns' k) ks"

text \<open>
  A small concrete setting: the input \<open>in/s.bam\<close>, an existing writable output
  directory \<open>o\<close>, and a configuration file whose two sections are empty.
\<close>

definition sample_world :: world where
  "sample_world =
     \<lparr>files = [''in/s.bam'' \<mapsto> []], dirs = {''in'', ''o''}, writable = {''o''}, trace = []\<rparr>"

definition empty_config :: config where
  "empty_config = \<lparr>cfg_fastq2bam = Some Map.empty, cfg_consensus = Some Map.empty\<rparr>"

definition no_float :: "string \<Rightarrow> string option" where
  "no_float s = None"

text \<open>
  A fastq2bam command line whose barcode pattern holds a bar, and the attributes the
  parser makes of it.
\<close>

definition bar_cli :: "(string \<times> string) list" where
  "bar_cli = [(''fastq1'', ''in/s_R1.fq''), (''fastq2'', ''in/s_R2.fq''), (''output'', ''o''),
              (''name'', ''_R''), (''bwa'', ''bwa''), (''ref'', ''ref.fa''),
              (''samtools'', ''samtools''), (''bpattern'', ''NN|NN'')]"

definition bar_args :: namespace where
  "bar_args = [''fastq1'' \<mapsto> PStr ''in/s_R1.fq'', ''fastq2'' \<mapsto> PStr ''in/s_R2.fq'',
               ''output'' \<mapsto> PStr ''o'', ''name'' \<mapsto> PStr ''_R'', ''bwa'' \<mapsto> PStr ''bwa'',
               ''ref'' \<mapsto> PStr ''ref.fa'', ''samtools'' \<mapsto> PStr ''samtools'',
               ''bpattern'' \<mapsto> PStr ''NN|NN'', ''blist'' \<mapsto> PNone,
               ''func'' \<mapsto> PFunc ''fastq2bam'']"

text \<open>
  A fastq2bam command line with a barcode list and no barcode pattern, and a
  configuration file whose section \<open>[fastq2bam]\<close> holds the one line
  \<open>subparser_name = consensus\<close>; then the attributes the parser makes of the two, as
  far as \<open>fastq2bam\<close> reads them.
\<close>

definition list_cli :: "(string \<times> string) list" where
  "list_cli = [(''fastq1'', ''in/s_R1.fq''), (''fastq2'', ''in/s_R2.fq''), (''output'', ''o''),
               (''bwa'', ''bwa''), (''ref'', ''ref.fa''), (''samtools'', ''samtools''),
               (''blist'', ''in/l.txt'')]"

definition renaming_config :: config where
  "renaming_config =
     \<lparr>cfg_fastq2bam = Some [''subparser_name'' \<mapsto> ''consensus''],
      cfg_consensus = Some Map.empty\<rparr>"

definition list_args :: namespace where
  "list_args = [''fastq1'' \<mapsto> PStr ''in/s_R1.fq'', ''fastq2'' \<mapsto> PStr ''in/s_R2.fq'',
                ''output'' \<mapsto> PStr ''o'', ''name'' \<mapsto> PStr ''_R'', ''bwa'' \<mapsto> PStr ''bwa'',
                ''ref'' \<mapsto> PStr ''ref.fa'', ''samtools'' \<mapsto> PStr ''samtools'',
                ''bpattern'' \<mapsto> PNone, ''blist'' \<mapsto> PStr ''in/l.txt'',
                ''func'' \<mapsto> PFunc ''fastq2bam'']"

text \<open>
  Consensus command lines over the same input. Without a configuration file:
  \<open>consensus -i in/s.bam -o o -s samtools\<close>, alone and with \<open>-b False\<close>; the sample
  directory \<open>o/s\<close> is there already. With the empty configuration file \<open>c.ini\<close>:
  the same with \<open>--scorrect ''\<close>, and with \<open>--cleanup True\<close>. Each comes with the
  attributes the parser makes of it, as far as \<open>consensus\<close> reads them.
\<close>

definition rerun_world :: world where
  "rerun_world = sample_world\<lparr>dirs := {''in'', ''o'', ''o/s''}\<rparr>"

definition plain_cli :: "(string \<times> string) list" where
  "plain_cli = [(''bam'', ''in/s.bam''), (''c_output'', ''o''), (''samtools'', ''samtools'')]"

definition plain_args :: namespace where
  "plain_args = [''bam'' \<mapsto> PStr ''in/s.bam'', ''c_output'' \<mapsto> PStr ''o'',
                 ''samtools'' \<mapsto> PStr ''samtools'', ''bedfile'' \<mapsto> PStr bedfile,
                 ''cutoff'' \<mapsto> PNone, ''scorrect'' \<mapsto> PNone, ''cleanup'' \<mapsto> PNone,
                 ''func'' \<mapsto> PFunc ''consensus'']"

definition bed_off_cli :: "(string \<times> string) list" where
  "bed_off_cli = plain_cli @ [(''bedfile'', ''False'')]"

definition bed_off_args :: namespace where
  "bed_off_args = plain_args(''bedfile'' \<mapsto> PStr ''False'')"

definition sc_off_cli :: "(string \<times> string) list" where
  "sc_off_cli = plain_cli @ [(''scorrect'', [])]"

definition sc_off_args :: namespace where
  "sc_off_args = [''bam'' \<mapsto> PStr ''in/s.bam'', ''c_output'' \<mapsto> PStr ''o'',
                  ''output'' \<mapsto> PStr output_help, ''samtools'' \<mapsto> PStr ''samtools'',
                  ''bedfile'' \<mapsto> PStr bedfile, ''cutoff'' \<mapsto> PFloat ''0.7'',
                  ''scorrect'' \<mapsto> PBool False, ''cleanup'' \<mapsto> PBool True,
                  ''func'' \<mapsto> PFunc ''consensus'']"

definition cleanup_cli :: "(string \<times> string) list" where
  "cleanup_cli = plain_cli @ [(''cleanup'', ''True'')]"

definition cleanup_args :: namespace where
  "cleanup_args = sc_off_args(''scorrect'' \<mapsto> PBool True)"

text \<open>The files the cleanup is meant to delete, under the directories the run creates.\<close>

definition cleanup_targets :: "string list" where
  "cleanup_targets =
     [''o/s/s.time_tracker.txt'',
      ''o/s/sscs/s.badReads.bam'',
      ''o/s/dcs/s.sscs.singleton.sorted.bam'',
      ''o/s/dcs/s.sscs.singleton.sorted.bam.bai'',
      ''o/s/sscs_sc/s.singleton.correction.sorted.bam'',
      ''o/s/sscs_sc/s.singleton.correction.sorted.bam.bai'',
      ''o/s/sscs_sc/s.sscs.correction.sorted.bam'',
      ''o/s/sscs_sc/s.sscs.correction.sorted.bam.bai'',
      ''o/s/sscs_sc/s.uncorrected.sorted.bam'',
      ''o/s/sscs_sc/s.uncorrected.sorted.bam.bai'',
      ''o/s/dcs_sc/s.sscs.sc.singleton.sorted.bam'',
      ''o/s/dcs_sc/s.sscs.sc.singleton.sorted.bam.bai'']"

section \<open>The consensus engine, as the specification describes it\<close>

text \<open>
  Modelled from the spec: the scripts \<open>SSCS_maker.py\<close>, \<open>DCS_maker.py\<close> and
  \<open>singleton_correction.py\<close> that \<open>consensus\<close> starts are not part of the source at
  hand. The definitions of this section follow sections 3 and 4.2 to 4.6 of the
  specification: reads and grouping keys, the Family Grouper, the SSCS Caller, the DCS
  Merger and the Singleton Corrector. Every record carries the names of the input reads
  it was made of, so that tracing back can be stated.
\<close>

datatype base = BaseA | BaseC | BaseG | BaseT | BaseN

record read =
  r_name :: string
  r_contig :: string
  r_start :: nat
  r_end :: nat
  r_forward :: bool
  r_umi :: "string \<times> string"
  r_seq :: "base list"

type_synonym key = "string \<times> nat \<times> nat \<times> bool \<times> string \<times> string"

definition key_of :: "read \<Rightarrow> key" where
  "key_of r = (r_contig r, r_start r, r_end r, r_forward r, fst (r_umi r), snd (r_umi r))"

text \<open>Modelled from the spec: the complementary key has the same contig, start and end,
  the strand flipped and the UMI halves swapped (section 4.4).\<close>

fun compl_key :: "key \<Rightarrow> key" where
  "compl_key (c, s, e, fw, u1, u2) = (c, s, e, \<not> fw, u2, u1)"

subsection \<open>SSCS Caller: one column\<close>

text \<open>
  Modelled from the spec: the tally of a column keeps the bases in the order they are
  first seen; the majority base is the first one with the highest count (section 4.3).
\<close>

fun bump :: "base \<Rightarrow> (base \<times> nat) list \<Rightarrow> (base \<times> nat) list" where
  "bump b [] = [(b, 1)]"
| "bump b ((x, n) # t) = (if x = b then (x, Suc n) # t else (x, n) # bump b t)"

definition tally :: "base list \<Rightarrow> (base \<times> nat) list" where
  "tally col = foldl (\<lambda>t b. bump b t) [] col"

fun majority :: "(base \<times> nat) list \<Rightarrow> (base \<times> nat) option" where
  "majority [] = None"
| "majority (e # es) =
     (case majority es of
        None \<Rightarrow> Some e
      | Some m \<Rightarrow> if snd e < snd m then Some m else Some e)"

text \<open>
  Modelled from the spec: a column is called with the majority base if
  \<open>count(base) / family_size \<ge> cutoff\<close>, compared as exact rationals, else it is
  called N (section 4.3).
\<close>

definition call_column :: "rat \<Rightarrow> nat \<Rightarrow> base list \<Rightarrow> base" where
  "call_column cutoff family_size col =
     (case majority (tally col) of
        None \<Rightarrow> BaseN
      | Some (b, n) \<Rightarrow> if cutoff \<le> of_nat n / of_nat family_size then b else BaseN)"

subsection \<open>SSCS Caller: one family\<close>

text \<open>
  Modelled from the spec: the reads of a family start at the same position; the
  columns run over the window they span, and a column holds the bases of the reads
  that cover it. A family of size 1 gives its read's bases verbatim (section 4.3).
\<close>

definition window :: "base list list \<Rightarrow> nat" where
  "window fam = foldr max (map length fam) 0"

definition column :: "base list list \<Rightarrow> nat \<Rightarrow> base list" where
  "column fam j = map (\<lambda>r. r ! j) (filter (\<lambda>r. j < length r) fam)"

definition sscs :: "rat \<Rightarrow> base list list \<Rightarrow> base list" where
  "sscs cutoff fam =
     (case fam of
        [r] \<Rightarrow> r
      | _ \<Rightarrow> map (\<lambda>j. call_column cutoff (length fam) (column fam j)) [0..<window fam])"

text \<open>The count a tally holds for a base.\<close>

definition cnt :: "(base \<times> nat) list \<Rightarrow> base \<Rightarrow> nat" where
  "cnt t x = (case map_of t x of None \<Rightarrow> 0 | Some n \<Rightarrow> n)"

subsection \<open>Family Grouper\<close>

text \<open>
  Modelled from the spec: reads are grouped by their key, exact match only; the
  families come in ascending order of start, then of UMI-pair code (section 4.2).
\<close>

fun str_le :: "string \<Rightarrow> string \<Rightarrow> bool" where
  "str_le [] t = True"
| "str_le (c # cs) [] = False"
| "str_le (c # cs) (d # ds) =
     ((of_char c :: nat) < of_char d \<or> (c = d \<and> str_le cs ds))"

fun key_le :: "key \<Rightarrow> key \<Rightarrow> bool" where
  "key_le (c, s, e, fw, u1, u2) (c', s', e', fw', u1', u2') =
     (s < s' \<or> (s = s' \<and> str_le (u1 @ u2) (u1' @ u2')))"

fun insert_key :: "key \<Rightarrow> key list \<Rightarrow> key list" where
  "insert_key k [] = [k]"
| "insert_key k (x # xs) = (if key_le k x then k # x # xs else x # insert_key k xs)"

definition sort_keys :: "key list \<Rightarrow> key list" where
  "sort_keys ks = foldr insert_key ks []"

definition first_seen :: "'a list \<Rightarrow> 'a list" where
  "first_seen xs = rev (remdups (rev xs))"

definition families :: "read list \<Rightarrow> (key \<times> read list) list" where
  "families reads =
     map (\<lambda>k. (k, filter (\<lambda>r. key_of r = k) reads))
         (sort_keys (first_seen (map key_of reads)))"

subsection \<open>Records\<close>

text \<open>
  Modelled from the spec: a consensus record holds the called bases, a confidence
  count per column, the family size and the grouping key (section 3). The same record
  type serves for singletons, corrected singletons and duplex records; \<open>m_reads\<close>
  names the input reads a record was made of.
\<close>

datatype kind = SSCS | Singleton | DCS | Corrected

record molecule =
  m_kind :: kind
  m_key :: key
  m_bases :: "base list"
  m_conf :: "nat list"
  m_size :: nat
  m_reads :: "string list"

subsection \<open>SSCS Caller\<close>

text \<open>
  Modelled from the spec: the caller makes one consensus record for each family; for
  a family of size 1 the record holds the read's bases verbatim and is surfaced as a
  singleton (sections 2 and 4.3). The caller writes two files, the ones \<open>consensus\<close>
  sorts at lines 180-181: the consensus records of the families of two reads and more,
  and the singletons. No family has a record in both: the specification takes the
  inputs of the final merge as disjoint by construction (section 4.6), and
  \<open>consensus\<close> merges the corrected singletons with the consensus records (line 242)
  and the uncorrected ones with what the DCS Merger leaves (line 272), which would
  double every singleton if the first file held a record for it too.
\<close>

definition conf_column :: "base list \<Rightarrow> nat" where
  "conf_column col = (case majority (tally col) of None \<Rightarrow> 0 | Some (b, n) \<Rightarrow> n)"

definition sscs_caller :: "rat \<Rightarrow> key \<times> read list \<Rightarrow> molecule" where
  "sscs_caller cutoff kf =
     (let seqs = map r_seq (snd kf)
      in \<lparr>m_kind = SSCS, m_key = fst kf, m_bases = sscs cutoff seqs,
          m_conf = map (\<lambda>j. conf_column (column seqs j)) [0..<window seqs],
          m_size = length (snd kf), m_reads = map r_name (snd kf)\<rparr>)"

definition singleton_record :: "key \<Rightarrow> read \<Rightarrow> molecule" where
  "singleton_record k r =
     \<lparr>m_kind = Singleton, m_key = k, m_bases = r_seq r,
      m_conf = replicate (length (r_seq r)) 1, m_size = 1, m_reads = [r_name r]\<rparr>"

definition singletons_of :: "key \<times> read list \<Rightarrow> molecule list" where
  "singletons_of kf = (case snd kf of [r] \<Rightarrow> [singleton_record (fst kf) r] | _ \<Rightarrow> [])"

definition sscs_maker :: "rat \<Rightarrow> read list \<Rightarrow> molecule list \<times> molecule list" where
  "sscs_maker cutoff reads =
     (let fams = families reads
      in (map (sscs_caller cutoff) (filter (\<lambda>kf. length (snd kf) \<noteq> 1) fams),
          concat (map singletons_of fams)))"

subsection \<open>DCS Merger\<close>

text \<open>
  Modelled from the spec: each record looks up a partner with the complementary key;
  a pair merges once and is consumed; a merged column holds the shared base if both
  columns are non-N and equal, else N; the shorter length wins; a record without
  partner passes through unchanged (section 4.4). The result is the duplex records and
  the records left without partner.
\<close>

definition merge_columns :: "base list \<Rightarrow> base list \<Rightarrow> base list" where
  "merge_columns xs ys =
     map (\<lambda>(x, y). if x \<noteq> BaseN \<and> y \<noteq> BaseN \<and> x = y then x else BaseN) (zip xs ys)"

definition duplex :: "molecule \<Rightarrow> molecule \<Rightarrow> molecule" where
  "duplex a b =
     \<lparr>m_kind = DCS, m_key = m_key a, m_bases = merge_columns (m_bases a) (m_bases b),
      m_conf = map (\<lambda>(x, y). x + y) (zip (m_conf a) (m_conf b)),
      m_size = m_size a + m_size b, m_reads = m_reads a @ m_reads b\<rparr>"

function dcs_maker :: "molecule list \<Rightarrow> molecule list \<times> molecule list" where
  "dcs_maker [] = ([], [])"
| "dcs_maker (r # rs) =
     (case find (\<lambda>p. m_key p = compl_key (m_key r)) rs of
        None \<Rightarrow> (let (d, u) = dcs_maker rs in (d, r # u))
      | Some p \<Rightarrow> (let (d, u) = dcs_maker (remove1 p rs) in (duplex r p # d, u)))"
  by pat_completeness auto
termination
  by (relation "measure length") (auto simp: length_remove1 find_Some_iff)

subsection \<open>Singleton Corrector\<close>

text \<open>
  Modelled from the spec: a singleton looks up a consensus record with the
  complementary key; if there is one, each column takes the base of that record where
  it is non-N and keeps its own base elsewhere; if there is none, the singleton goes
  unchanged to the uncorrected output (section 4.5). The consensus record looked up
  is that of a larger family, in the SSCS file, or else that of another singleton,
  which holds that singleton's bases verbatim; the corrected singletons come in the
  two files \<open>consensus\<close> moves at lines 225-231, one for either case.
\<close>

definition correct :: "molecule \<Rightarrow> molecule \<Rightarrow> molecule" where
  "correct s c =
     s\<lparr>m_kind := Corrected,
       m_bases := map (\<lambda>j. if j < length (m_bases c) \<and> m_bases c ! j \<noteq> BaseN
                            then m_bases c ! j else m_bases s ! j)
                      [0..<length (m_bases s)]\<rparr>"

definition partner_of :: "molecule list \<Rightarrow> molecule \<Rightarrow> molecule option" where
  "partner_of recs s = find (\<lambda>c. m_key c = compl_key (m_key s)) recs"

definition singleton_correction ::
  "molecule list \<Rightarrow> molecule list \<Rightarrow> molecule list \<times> molecule list \<times> molecule list" where
  "singleton_correction sscs_recs sing =
     (concat (map (\<lambda>s. case partner_of sscs_recs s of
                          Some c \<Rightarrow> [correct s c]
                        | None \<Rightarrow> []) sing),
      concat (map (\<lambda>s. case partner_of sscs_recs s of
                          Some c \<Rightarrow> []
                        | None \<Rightarrow> (case partner_of sing s of
                                     Some c \<Rightarrow> [correct s c]
                                   | None \<Rightarrow> [])) sing),
      filter (\<lambda>s. partner_of sscs_recs s = None \<and> partner_of sing s = None) sing)"

subsection \<open>The flow of records through consensus\<close>

text \<open>
  The files of lines 163-273 of \<open>consensus\<close>, singleton correction on, with the
  engines above in the place of the scripts and \<open>samtools merge\<close> as concatenation:
  SSCS and singletons; DCS and unpaired SSCS; the three outputs of the correction;
  SSCS + SC; DCS + SC and its unpaired records; and the merge of line 272, the final
  unique-molecule output.
\<close>

definition all_unique :: "rat \<Rightarrow> read list \<Rightarrow> molecule list" where
  "all_unique cutoff reads =
     (let (sscs_recs, sing) = sscs_maker cutoff reads;
          (dcs, sscs_sing) = dcs_maker sscs_recs;
          (sscs_cor, sing_cor, uncorrected) = singleton_correction sscs_recs sing;
          sscs_sc = sscs_recs @ sscs_cor @ sing_cor;
          (dcs_sc, sscs_sc_sing) = dcs_maker sscs_sc
      in dcs_sc @ sscs_sc_sing @ uncorrected)"


text \<open>
  A sample of nine reads: a family of two with a singleton on the complementary
  strand, two singletons complementary to each other, a singleton alone, and a family
  of three alone.
\<close>

definition sample_read :: "string \<Rightarrow> string \<Rightarrow> nat \<Rightarrow> bool \<Rightarrow> string \<times> string \<Rightarrow> base list \<Rightarrow> read" where
  "sample_read n c s fw u bs =
     \<lparr>r_name = n, r_contig = c, r_start = s, r_end = s + length bs, r_forward = fw,
      r_umi = u, r_seq = bs\<rparr>"

definition sample_reads :: "read list" where
  "sample_reads =
     [sample_read ''r1'' ''chr1'' 100 True (''AC'', ''GT'') [BaseA, BaseC, BaseG],
      sample_read ''r2'' ''chr1'' 100 True (''AC'', ''GT'') [BaseA, BaseC, BaseT],
      sample_read ''r3'' ''chr1'' 100 False (''GT'', ''AC'') [BaseA, BaseC, BaseG],
      sample_read ''r4'' ''chr1'' 200 True (''AA'', ''CC'') [BaseT, BaseT],
      sample_read ''r5'' ''chr1'' 200 False (''CC'', ''AA'') [BaseT, BaseN],
      sample_read ''r6'' ''chr2'' 50 True (''TT'', ''GG'') [BaseC],
      sample_read ''r7'' ''chr2'' 70 False (''CA'', ''CA'') [BaseG, BaseG],
      sample_read ''r8'' ''chr2'' 70 False (''CA'', ''CA'') [BaseG, BaseG],
      sample_read ''r9'' ''chr2'' 70 False (''CA'', ''CA'') [BaseG, BaseA]]"

section \<open>Facts about the parser\<close>

lemma bind_res_Inr: "bind_res r f = Inr y \<Longrightarrow> \<exists>x. r = Inr x \<and> f x = Inr y"
  by (cases r) (simp_all add: bind_res_def)

lemma check_value_Inr: "check_value ch v = Inr v' \<Longrightarrow> v' = v"
  by (auto simp: check_value_def split: option.splits if_splits)

text \<open>Options of the command line leave the other attributes alone.\<close>

lemma consume_options_other:
  "consume_options fl acts cli ns = Inr ns' \<Longrightarrow> d \<notin> fst ` set cli \<Longrightarrow> ns' d = ns d"
proof (induction cli arbitrary: ns)
  case Nil
  then show ?case by simp
next
  case (Cons x cli)
  obtain d' s where x: "x = (d', s)" by (cases x)
  from Cons.prems(2) x have ne: "d' \<noteq> d" and rest: "d \<notin> fst ` set cli" by auto
  from Cons.prems(1) x obtain a where a: "find_action acts d' = Some a"
    by (auto split: option.splits)
  from Cons.prems(1) x a obtain v where "get_value fl (a_type a) s = Inr v"
    and "bind_res (check_value (a_choices a) v)
           (\<lambda>v'. consume_options fl acts cli (ns(d' \<mapsto> v'))) = Inr ns'"
    by (auto dest: bind_res_Inr)
  then obtain v' where "consume_options fl acts cli (ns(d' \<mapsto> v')) = Inr ns'"
    by (auto dest: bind_res_Inr)
  from Cons.IH[OF this rest] ne show ?case by simp
qed

text \<open>The last occurrence of an option decides its attribute.\<close>

lemma consume_options_last:
  "consume_options fl acts (pre @ (d, s) # post) ns = Inr ns' \<Longrightarrow> d \<notin> fst ` set post \<Longrightarrow>
   \<exists>a v. find_action acts d = Some a \<and> get_value fl (a_type a) s = Inr v
         \<and> check_value (a_choices a) v = Inr v \<and> ns' d = Some v"
proof (induction pre arbitrary: ns)
  case Nil
  from Nil(1) obtain a where a: "find_action acts d = Some a"
    by (auto split: option.splits)
  from Nil(1) a obtain v where v: "get_value fl (a_type a) s = Inr v"
    and "bind_res (check_value (a_choices a) v)
           (\<lambda>v'. consume_options fl acts post (ns(d \<mapsto> v'))) = Inr ns'"
    by (auto dest: bind_res_Inr)
  then obtain v' where c: "check_value (a_choices a) v = Inr v'"
    and r: "consume_options fl acts post (ns(d \<mapsto> v')) = Inr ns'"
    by (auto dest: bind_res_Inr)
  from c have "v' = v" by (rule check_value_Inr)
  with consume_options_other[OF r Nil(2)] a v c show ?case by simp
next
  case (Cons x pre)
  obtain d' s' where x: "x = (d', s')" by (cases x)
  from Cons.prems(1) x obtain a where a: "find_action acts d' = Some a"
    by (auto split: option.splits)
  from Cons.prems(1) x a obtain v where "get_value fl (a_type a) s' = Inr v"
    and "bind_res (check_value (a_choices a) v)
           (\<lambda>v'. consume_options fl acts (pre @ (d, s) # post) (ns(d' \<mapsto> v'))) = Inr ns'"
    by (auto dest: bind_res_Inr)
  then obtain v' where
    "consume_options fl acts (pre @ (d, s) # post) (ns(d' \<mapsto> v')) = Inr ns'"
    by (auto dest: bind_res_Inr)
  from Cons.IH[OF this Cons.prems(2)] show ?case .
qed

text \<open>The conversion of defaults touches no attribute seen on the command line.\<close>

lemma convert_defaults_seen:
  "convert_defaults fl seen acts ns = Inr ns' \<Longrightarrow> d \<in> set seen \<Longrightarrow> ns' d = ns d"
proof (induction acts arbitrary: ns)
  case Nil
  then show ?case by simp
next
  case (Cons a acts)
  show ?case
  proof (cases "a_dest a \<in> set seen")
    case True
    with Cons show ?thesis by simp
  next
    case False
    with Cons.prems(2) have ne: "a_dest a \<noteq> d" by auto
    show ?thesis
    proof (cases "\<exists>s. a_default a = PStr s \<and> ns (a_dest a) = Some (PStr s)")
      case True
      then obtain s where s: "a_default a = PStr s" "ns (a_dest a) = Some (PStr s)" by auto
      with Cons.prems(1) False obtain v where
        "convert_defaults fl seen acts (ns(a_dest a \<mapsto> v)) = Inr ns'"
        by (auto dest: bind_res_Inr)
      from Cons.IH[OF this Cons.prems(2)] ne show ?thesis by simp
    next
      case nostr: False
      with Cons.prems(1) False have "convert_defaults fl seen acts ns = Inr ns'"
        by (auto split: pyval.splits if_splits)
      from Cons.IH[OF this Cons.prems(2)] show ?thesis .
    qed
  qed
qed

lemma parse_known_args_last:
  assumes "parse_known_args fl p (pre @ (d, s) # post) = Inr ns" and "d \<notin> fst ` set post"
  shows "\<exists>a v. find_action (p_actions p) d = Some a \<and> get_value fl (a_type a) s = Inr v
               \<and> check_value (a_choices a) v = Inr v \<and> ns d = Some v"
proof -
  from assms(1) obtain ns3 where
    c: "consume_options fl (p_actions p) (pre @ (d, s) # post)
          (store_parser_defaults (p_defaults p)
             (store_action_defaults (p_actions p) Map.empty)) = Inr ns3"
    and d: "convert_defaults fl (map fst (pre @ (d, s) # post)) (p_actions p) ns3 = Inr ns"
    by (auto simp: parse_known_args_def Let_def dest: bind_res_Inr)
  have "ns d = ns3 d" by (rule convert_defaults_seen[OF d]) simp
  with consume_options_last[OF c assms(2)] show ?thesis by simp
qed

text \<open>Dest, type and choices of the options do not depend on the configuration file.\<close>

lemma find_action_same_shape:
  "map (\<lambda>a. (a_dest a, a_type a, a_choices a)) acts
     = map (\<lambda>a. (a_dest a, a_type a, a_choices a)) acts'
   \<Longrightarrow> map_option (\<lambda>a. (a_type a, a_choices a)) (find_action acts d)
       = map_option (\<lambda>a. (a_type a, a_choices a)) (find_action acts' d)"
proof (induction acts arbitrary: acts')
  case Nil
  then show ?case by simp
next
  case (Cons a acts)
  then obtain b bs where "acts' = b # bs" by (cases acts') auto
  with Cons show ?case by auto
qed

lemma sub_a_shape:
  "p_actions p = [] \<Longrightarrow>
   map (\<lambda>a. (a_dest a, a_type a, a_choices a)) (p_actions (sub_a_arguments p))
   = map (\<lambda>a. (a_dest a, a_type a, a_choices a)) (p_actions (sub_a_arguments new_parser))"
  by (simp add: sub_a_arguments_def add_argument_def set_defaults_def new_parser_def)

lemma sub_b_shape:
  "p_actions p = [] \<Longrightarrow>
   map (\<lambda>a. (a_dest a, a_type a, a_choices a)) (p_actions (sub_b_arguments p))
   = map (\<lambda>a. (a_dest a, a_type a, a_choices a)) (p_actions (sub_b_arguments new_parser))"
  by (simp add: sub_b_arguments_def add_argument_def set_defaults_def new_parser_def)

lemma config_defaults_no_actions:
  "config_defaults c = Inr (pa, pb) \<Longrightarrow> p_actions pa = [] \<and> p_actions pb = []"
  by (auto simp: config_defaults_def set_defaults_def new_parser_def Let_def
           split: option.splits)

lemma parse_args_last:
  assumes "parse_args fl cf sc (pre @ (d, s) # post) = Inr ns"
      and "d \<notin> fst ` set post"
  shows "\<exists>t v. option_type sc d = Some t \<and> get_value fl t s = Inr v \<and> ns d = Some v"
proof -
  let ?c = "map_option snd cf"
  from assms(1) obtain pa pb where cd: "config_defaults ?c = Inr (pa, pb)"
    by (cases "config_defaults ?c") (auto simp: parse_args_def bind_res_def)
  let ?p = "case sc of Fastq2bam \<Rightarrow> sub_a_arguments pa | Consensus \<Rightarrow> sub_b_arguments pb"
  let ?q = "case sc of Fastq2bam \<Rightarrow> sub_a_arguments new_parser
            | Consensus \<Rightarrow> sub_b_arguments new_parser"
  from assms(1) cd obtain ns1 where
    pk: "parse_known_args fl ?p (pre @ (d, s) # post) = Inr ns1"
    and ns: "ns = main_namespace cf sc ++ ns1"
    by (cases "parse_known_args fl ?p (pre @ (d, s) # post)")
       (auto simp: parse_args_def bind_res_def)
  from parse_known_args_last[OF pk assms(2)] obtain a v where
    a: "find_action (p_actions ?p) d = Some a" and v: "get_value fl (a_type a) s = Inr v"
    and n1: "ns1 d = Some v" by blast
  from config_defaults_no_actions[OF cd]
  have "map (\<lambda>a. (a_dest a, a_type a, a_choices a)) (p_actions ?p)
        = map (\<lambda>a. (a_dest a, a_type a, a_choices a)) (p_actions ?q)"
    by (cases sc) (simp_all add: sub_a_shape sub_b_shape)
  from find_action_same_shape[OF this, of d] a
  have ot: "option_type sc d = Some (a_type a)"
    by (cases "find_action (p_actions ?q) d") (auto simp: option_type_def)
  from ns n1 have "ns d = Some v" by (simp add: map_add_def)
  with ot v show ?thesis by blast
qed

lemma option_type_bool:
  "d = ''scorrect'' \<or> d = ''cleanup'' \<Longrightarrow> option_type Consensus d = Some TBool"
  by (auto simp: option_type_def sub_b_arguments_def add_argument_def set_defaults_def
        new_parser_def)

lemma option_type_output: "option_type Fastq2bam ''output'' = Some TStr"
  by (simp add: option_type_def sub_a_arguments_def add_argument_def set_defaults_def
        new_parser_def)

lemma config_defaults_None: "config_defaults None = Inr (new_parser, new_parser)"
  by (simp add: config_defaults_def)

lemma config_defaults_Some:
  "config_defaults (Some \<lparr>cfg_fastq2bam = Some fa, cfg_consensus = Some co\<rparr>)
   = Inr (set_defaults (defaults ++ items_dict fa) new_parser,
          set_defaults (defaults ++ items_dict fa ++ items_dict co) new_parser)"
  by (simp add: config_defaults_def Let_def)

lemma parse_args_compose:
  assumes "config_defaults (map_option snd cf) = Inr (pa, pb)"
      and "parse_known_args fl (case sc of Fastq2bam \<Rightarrow> sub_a_arguments pa
                                 | Consensus \<Rightarrow> sub_b_arguments pb) cli = Inr ns"
  shows "parse_args fl cf sc cli = Inr (main_namespace cf sc ++ ns)"
  using assms by (simp add: parse_args_def bind_res_def)

text \<open>
  The subparser's attributes win over those of the main parser; the main parser's
  show where the subparser has none.
\<close>

lemma overlay_sub: "ns k = Some v \<Longrightarrow> (main_namespace cf sc ++ ns) k = Some v"
  by (simp add: map_add_def)

lemma overlay_other:
  "k \<noteq> ''config'' \<Longrightarrow> k \<noteq> ''subparser_name'' \<Longrightarrow> (main_namespace cf sc ++ ns) k = ns k"
  by (simp add: map_add_def main_namespace_def split: option.splits)

lemma overlay_name:
  "ns ''subparser_name'' = None \<Longrightarrow>
   (main_namespace cf sc ++ ns) ''subparser_name'' = Some (PStr (subcommand_name sc))"
  by (simp add: map_add_def main_namespace_def)

lemmas parser_defs =
  sub_a_arguments_def sub_b_arguments_def add_argument_def set_defaults_def new_parser_def
  parse_known_args_def store_parser_defaults_def bind_res_def check_value_def
  py_bool_of_str_def defaults_def items_dict_def map_add_def

section \<open>Precedence of the command line over the configuration file\<close>

text \<open>
  C9. For either subcommand, whatever the configuration file holds: when parsing
  succeeds, the attribute of an option given on the command line is the value its
  \<open>type=\<close> callable makes of the text of its last occurrence there. Neither the
  dictionary of defaults nor a section of the configuration file enters that value,
  so configuration values can only show in attributes the command line leaves out.
\<close>

theorem command_line_overrides_config:
  assumes "parse_args fl cf sc cli = Inr ns"
      and "cli = pre @ (d, s) # post"
      and "d \<notin> fst ` set post"
  shows "\<exists>t v. option_type sc d = Some t \<and> get_value fl t s = Inr v \<and> ns d = Some v"
  using assms parse_args_last by blast

lemma output_over_config:
  "\<exists>ns. parse_known_args no_float
          (sub_a_arguments
             (set_defaults (defaults ++ items_dict [''output'' \<mapsto> ''cfg_out'']) new_parser))
          [(''output'', ''cli_out'')] = Inr ns"
  by (simp add: parser_defs)

theorem command_line_overrides_config_witness:
  "parsed (parse_args no_float
             (Some (''c.ini'', \<lparr>cfg_fastq2bam = Some [''output'' \<mapsto> ''cfg_out''],
                                cfg_consensus = Some Map.empty\<rparr>))
             Fastq2bam [(''output'', ''cli_out'')]) ''output''
   = Some (PStr ''cli_out'')"
proof -
  let ?cfg = "\<lparr>cfg_fastq2bam = Some [''output'' \<mapsto> ''cfg_out''],
               cfg_consensus = Some Map.empty\<rparr>"
  let ?r = "parse_args no_float (Some (''c.ini'', ?cfg)) Fastq2bam
              [(''output'', ''cli_out'')]"
  from output_over_config obtain ns1 where
    "parse_known_args no_float
       (sub_a_arguments
          (set_defaults (defaults ++ items_dict [''output'' \<mapsto> ''cfg_out'']) new_parser))
       [(''output'', ''cli_out'')] = Inr ns1" ..
  then have "\<exists>ns. ?r = Inr ns"
    using parse_args_compose[where cf="Some (''c.ini'', ?cfg)"
        and fl=no_float and sc=Fastq2bam and ns=ns1]
    by (simp add: config_defaults_Some)
  then obtain ns where ns: "?r = Inr ns" ..
  have "\<exists>t v. option_type Fastq2bam ''output'' = Some t
              \<and> get_value no_float t ''cli_out'' = Inr v \<and> ns ''output'' = Some v"
    by (rule command_line_overrides_config[OF ns, of "[]" _ _ "[]"]) simp_all
  then have "ns ''output'' = Some (PStr ''cli_out'')"
    by (auto simp: option_type_output)
  with ns show ?thesis by (simp add: parsed_def)
qed

section \<open>The boolean options\<close>

lemma scorrect_alone:
  "\<exists>ns. parse_known_args fl (sub_b_arguments new_parser) [(''scorrect'', s)] = Inr ns
        \<and> ns ''scorrect'' = Some (PBool (s \<noteq> []))"
  by (simp add: parser_defs)

lemma cleanup_alone:
  "\<exists>ns. parse_known_args fl (sub_b_arguments new_parser) [(''cleanup'', s)] = Inr ns
        \<and> ns ''cleanup'' = Some (PBool (s \<noteq> []))"
  by (simp add: parser_defs)

lemma bool_option_alone:
  assumes "d = ''scorrect'' \<or> d = ''cleanup''"
  shows "parsed (parse_args fl None Consensus [(d, s)]) d = Some (PBool (s \<noteq> []))"
proof -
  from assms scorrect_alone cleanup_alone obtain ns where
    ns: "parse_known_args fl (sub_b_arguments new_parser) [(d, s)] = Inr ns"
    and v: "ns d = Some (PBool (s \<noteq> []))" by metis
  have "parse_args fl None Consensus [(d, s)] = Inr (main_namespace None Consensus ++ ns)"
    using parse_args_compose[where cf=None and fl=fl and sc=Consensus
        and ns=ns and cli="[(d, s)]"] ns
    by (simp add: config_defaults_None)
  with overlay_sub[where ns=ns, OF v] show ?thesis by (simp add: parsed_def)
qed

text \<open>
  C10. For the consensus subcommand, the text \<open>s\<close> given last to \<open>--scorrect\<close> or to
  \<open>--cleanup\<close> is stored as \<open>bool(s)\<close>: \<open>True\<close> for every non-empty text, \<open>False\<close>
  for the empty one only. The first part is for any command line that parses, with or
  without a configuration file; the second shows that such an option alone always
  parses, so the converted value passes the choices check.
\<close>

theorem bool_option_is_nonemptiness:
  assumes "d = ''scorrect'' \<or> d = ''cleanup''"
  shows "(parse_args fl cf Consensus (pre @ (d, s) # post) = Inr ns
            \<and> d \<notin> fst ` set post \<longrightarrow> ns d = Some (PBool (s \<noteq> [])))
         \<and> parsed (parse_args fl None Consensus [(d, s)]) d = Some (PBool (s \<noteq> []))"
proof
  show "parse_args fl cf Consensus (pre @ (d, s) # post) = Inr ns
          \<and> d \<notin> fst ` set post \<longrightarrow> ns d = Some (PBool (s \<noteq> []))"
  proof
    assume h: "parse_args fl cf Consensus (pre @ (d, s) # post) = Inr ns
                 \<and> d \<notin> fst ` set post"
    then obtain t v where "option_type Consensus d = Some t" "get_value fl t s = Inr v"
      "ns d = Some v"
      using parse_args_last by blast
    with option_type_bool[OF assms] show "ns d = Some (PBool (s \<noteq> []))"
      by (auto simp: py_bool_of_str_def)
  qed
next
  from assms show "parsed (parse_args fl None Consensus [(d, s)]) d = Some (PBool (s \<noteq> []))"
    by (rule bool_option_alone)
qed

theorem bool_option_is_nonemptiness_witness:
  "parsed (parse_args no_float None Consensus [(''scorrect'', ''False'')]) ''scorrect''
     = Some (PBool True)
   \<and> parsed (parse_args no_float None Consensus [(''cleanup'', [])]) ''cleanup''
     = Some (PBool False)"
  using bool_option_is_nonemptiness[of "''scorrect''" no_float None "[]" "''False''" "[]" Map.empty]
        bool_option_is_nonemptiness[of "''cleanup''" no_float None "[]" "[]" "[]" Map.empty]
  by simp

section \<open>Facts about the main program\<close>

lemma any_none_present: "list_all (present ns) ks \<Longrightarrow> any_none ns ks w = Inr False"
  by (induction ks)
     (auto simp: present_def attr_def getattr_def raise_in_def bind_io_def split: option.splits)

lemma main_parsed:
  assumes "parse_args fl cf sc cli = Inr ns"
  shows "main fl ext cf (Some sc) cli w = dispatch ext ns w"
proof -
  from assms obtain ps where "config_defaults (map_option snd cf) = Inr ps"
    by (cases "config_defaults (map_option snd cf)") (auto simp: parse_args_def bind_res_def)
  with assms show ?thesis by (simp add: main_def raise_in_def bind_io_def)
qed

text \<open>The branch taken is the one \<open>args.subparser_name\<close> names.\<close>

lemma dispatch_fastq2bam:
  "ns ''subparser_name'' = Some (PStr ''fastq2bam'') \<Longrightarrow>
   dispatch ext ns w = check_fastq2bam ext ns w"
  by (simp add: dispatch_def attr_def getattr_def raise_in_def bind_io_def is_None_def)

lemma dispatch_consensus:
  "ns ''subparser_name'' = Some (PStr ''consensus'') \<Longrightarrow>
   dispatch ext ns w = check_consensus ext ns w"
  by (simp add: dispatch_def attr_def getattr_def raise_in_def bind_io_def is_None_def)

text \<open>\<open>args.func\<close> is the function the subparser has stored.\<close>

lemma call_func_fastq2bam:
  "ns ''func'' = Some (PFunc ''fastq2bam'') \<Longrightarrow> call_func ext ns w = fastq2bam ext ns w"
  by (simp add: call_func_def attr_def getattr_def raise_in_def bind_io_def)

lemma call_func_consensus:
  "ns ''func'' = Some (PFunc ''consensus'') \<Longrightarrow> call_func ext ns w = consensus ext ns w"
  by (simp add: call_func_def attr_def getattr_def raise_in_def bind_io_def)

lemma attr_agree: "agree_on ks ns ns' \<Longrightarrow> k \<in> set ks \<Longrightarrow> attr ns k = attr ns' k"
  by (auto simp: attr_def getattr_def fun_eq_iff agree_on_def list_all_iff)

lemma agree_on_at: "agree_on ks ns ns' \<Longrightarrow> k \<in> set ks \<Longrightarrow> ns k = ns' k"
  by (simp add: agree_on_def list_all_iff)

lemma agree_on_main_attrs:
  "agree_on ks ns ns' \<Longrightarrow> ''config'' \<notin> set ks \<Longrightarrow> ''subparser_name'' \<notin> set ks \<Longrightarrow>
   agree_on ks (main_namespace cf sc ++ ns) ns'"
  unfolding agree_on_def list_all_iff
proof
  fix k
  assume h: "\<forall>k\<in>set ks. ns k = ns' k" "''config'' \<notin> set ks" "''subparser_name'' \<notin> set ks"
    and k: "k \<in> set ks"
  then have "k \<noteq> ''config''" "k \<noteq> ''subparser_name''" by auto
  then have "(main_namespace cf sc ++ ns) k = ns k" by (rule overlay_other)
  with h(1) k show "(main_namespace cf sc ++ ns) k = ns' k" by simp
qed

text \<open>Each branch depends on the namespace through the attributes it reads only.\<close>

lemma consensus_cong:
  assumes "agree_on consensus_attrs ns ns'"
  shows "consensus ext ns w = consensus ext ns' w"
proof -
  have a: "attr ns ''bam'' = attr ns' ''bam''" "attr ns ''c_output'' = attr ns' ''c_output''"
    "attr ns ''output'' = attr ns' ''output''" "attr ns ''bedfile'' = attr ns' ''bedfile''"
    "attr ns ''cutoff'' = attr ns' ''cutoff''" "attr ns ''samtools'' = attr ns' ''samtools''"
    "attr ns ''scorrect'' = attr ns' ''scorrect''" "attr ns ''cleanup'' = attr ns' ''cleanup''"
    by (rule attr_agree[OF assms], simp add: consensus_attrs_def)+
  show ?thesis
    by (simp only: consensus_def stage_sscs_def stage_dcs_def stage_sc_def make_if_absent_def a)
qed

lemma fastq2bam_cong:
  assumes "agree_on fastq2bam_attrs ns ns'"
  shows "fastq2bam ext ns w = fastq2bam ext ns' w"
proof -
  have a: "attr ns ''fastq1'' = attr ns' ''fastq1''" "attr ns ''fastq2'' = attr ns' ''fastq2''"
    "attr ns ''output'' = attr ns' ''output''" "attr ns ''bwa'' = attr ns' ''bwa''"
    "attr ns ''ref'' = attr ns' ''ref''" "attr ns ''samtools'' = attr ns' ''samtools''"
    "attr ns ''bpattern'' = attr ns' ''bpattern''" "attr ns ''blist'' = attr ns' ''blist''"
    "attr ns ''name'' = attr ns' ''name''"
    by (rule attr_agree[OF assms], simp add: fastq2bam_attrs_def)+
  show ?thesis
    by (simp only: fastq2bam_def make_if_absent_def a)
qed

lemma check_consensus_cong:
  assumes "agree_on consensus_attrs ns ns'" and "ns' ''func'' = Some (PFunc ''consensus'')"
  shows "check_consensus ext ns w = check_consensus ext ns' w"
proof -
  have a: "attr ns ''bam'' = attr ns' ''bam''" "attr ns ''c_output'' = attr ns' ''c_output''"
    "attr ns ''samtools'' = attr ns' ''samtools''"
    by (rule attr_agree[OF assms(1)], simp add: consensus_attrs_def)+
  have "ns ''func'' = ns' ''func''"
    by (rule agree_on_at[OF assms(1)]) (simp add: consensus_attrs_def)
  with assms(2) have f: "ns ''func'' = Some (PFunc ''consensus'')" by simp
  show ?thesis
    by (simp only: check_consensus_def consensus_required_def any_none.simps a
          call_func_consensus[where ns=ns, OF f] call_func_consensus[where ns=ns', OF assms(2)]
          consensus_cong[OF assms(1)])
qed

lemma check_fastq2bam_cong:
  assumes "agree_on fastq2bam_attrs ns ns'" and "ns' ''func'' = Some (PFunc ''fastq2bam'')"
  shows "check_fastq2bam ext ns w = check_fastq2bam ext ns' w"
proof -
  have a: "attr ns ''fastq1'' = attr ns' ''fastq1''" "attr ns ''fastq2'' = attr ns' ''fastq2''"
    "attr ns ''output'' = attr ns' ''output''" "attr ns ''bwa'' = attr ns' ''bwa''"
    "attr ns ''ref'' = attr ns' ''ref''" "attr ns ''samtools'' = attr ns' ''samtools''"
    "attr ns ''bpattern'' = attr ns' ''bpattern''" "attr ns ''blist'' = attr ns' ''blist''"
    by (rule attr_agree[OF assms(1)], simp add: fastq2bam_attrs_def)+
  have "ns ''func'' = ns' ''func''"
    by (rule agree_on_at[OF assms(1)]) (simp add: fastq2bam_attrs_def)
  with assms(2) have f: "ns ''func'' = Some (PFunc ''fastq2bam'')" by simp
  show ?thesis
    by (simp only: check_fastq2bam_def fastq2bam_required_def any_none.simps a
          call_func_fastq2bam[where ns=ns, OF f] call_func_fastq2bam[where ns=ns', OF assms(2)]
          fastq2bam_cong[OF assms(1)])
qed

text \<open>Joining the lines of a text again leaves the text without its line boundaries.\<close>

lemma concat_splitlines_from:
  "concat (splitlines_from cur s) = rev cur @ filter (\<lambda>c. \<not> is_linebreak c) s"
  by (induction cur s rule: splitlines_from.induct) (auto simp: is_linebreak_def)

lemma concat_splitlines: "concat (splitlines s) = filter (\<lambda>c. \<not> is_linebreak c) s"
  by (simp add: splitlines_def concat_splitlines_from)

lemmas check_defs =
  check_fastq2bam_def bind_io_def attr_def raise_in_def getattr_def is_None_def
  findall_outside_def str_of_def search_outside_def open_read_def

text \<open>
  What the validation chain does catch: a pattern with a character outside
  \<open>A|C|G|T|N\<close>, bar included, and a list with a character outside \<open>ACGTN\<close> on one of
  its lines. Both end the run in the state it started in.
\<close>

lemma invalid_pattern_raises:
  assumes "list_all (present ns) fastq2bam_required"
      and "ns ''bpattern'' = Some (PStr p)" and "ns ''blist'' = Some bl"
      and "\<exists>c\<in>set p. c \<notin> set ''ACGTN|''"
  shows "check_fastq2bam ext ns w =
         Inl (ValueError ''Invalid barcode pattern containing characters other than A, C, G, T, and N.'', w)"
proof -
  from assms(4) have "filter (\<lambda>c. c \<notin> set ''A|C|G|T|N'') p \<noteq> []"
    by (auto simp: filter_empty_conv)
  with assms(1-3) show ?thesis
    by (simp add: check_defs any_none_present)
qed

lemma invalid_list_raises:
  assumes "list_all (present ns) fastq2bam_required"
      and "ns ''bpattern'' = Some (PStr p)" and "set p \<subseteq> set ''ACGTN|''"
      and "ns ''blist'' = Some (PStr path)" and "files w path = Some content"
      and "\<exists>c\<in>set content. \<not> is_linebreak c \<and> c \<notin> set ''ACGTN''"
  shows "check_fastq2bam ext ns w =
         Inl (ValueError ''List contains invalid barcodes. Please specify barcodes with A|C|G|T.'', w)"
proof -
  from assms(3) have ok: "filter (\<lambda>c. c \<notin> set ''A|C|G|T|N'') p = []"
    by (auto simp: filter_empty_conv)
  from assms(6) have "find (\<lambda>c. c \<notin> set ''ACGTN'') (concat (splitlines content)) \<noteq> None"
    by (auto simp: concat_splitlines find_None_iff)
  with assms(1,2,4,5) ok show ?thesis
    by (simp add: check_defs any_none_present)
qed

section \<open>A barcode list without a barcode pattern\<close>

text \<open>
  With the configuration file \<open>c.ini\<close> whose section \<open>[fastq2bam]\<close> holds
  \<open>subparser_name = consensus\<close>, the command line
  \<open>-c c.ini fastq2bam --fastq1 in/s_R1.fq --fastq2 in/s_R2.fq -o o -b bwa -r ref.fa
  -s samtools -l in/l.txt\<close> is parsed by the fastq2bam subparser, whose namespace
  holds \<open>subparser_name = 'consensus'\<close> and \<open>func = fastq2bam\<close>, and the three values the
  consensus branch asks for.
\<close>

lemma renamed_parse:
  "\<exists>ns. parse_known_args fl
          (sub_a_arguments
             (set_defaults (defaults ++ items_dict [''subparser_name'' \<mapsto> ''consensus''])
                new_parser))
          list_cli = Inr ns
        \<and> agree_on fastq2bam_attrs ns list_args
        \<and> ns ''subparser_name'' = Some (PStr ''consensus'')
        \<and> list_all (present ns) consensus_required"
  by (simp add: parser_defs list_cli_def list_args_def agree_on_def fastq2bam_attrs_def
        present_def is_None_def consensus_required_def cinput_help_def coutput_help_def)

lemma renamed_main:
  "main fl ext (Some (''c.ini'', renaming_config)) (Some Fastq2bam) list_cli w
   = fastq2bam ext list_args w"
proof -
  let ?cf = "Some (''c.ini'', renaming_config)"
  from renamed_parse[of fl] obtain ns where
    pk: "parse_known_args fl
           (sub_a_arguments
              (set_defaults (defaults ++ items_dict [''subparser_name'' \<mapsto> ''consensus''])
                 new_parser))
           list_cli = Inr ns"
    and ag: "agree_on fastq2bam_attrs ns list_args"
    and nm: "ns ''subparser_name'' = Some (PStr ''consensus'')"
    and req: "list_all (present ns) consensus_required" by blast
  let ?ns = "main_namespace ?cf Fastq2bam ++ ns"
  have p: "parse_args fl ?cf Fastq2bam list_cli = Inr ?ns"
    using parse_args_compose[where cf="?cf" and fl=fl and sc=Fastq2bam and ns=ns
        and cli=list_cli] pk
    by (simp add: config_defaults_Some renaming_config_def)
  have ag': "agree_on fastq2bam_attrs ?ns list_args"
    by (rule agree_on_main_attrs[OF ag]) (simp_all add: fastq2bam_attrs_def)
  have "?ns ''func'' = list_args ''func''"
    by (rule agree_on_at[OF ag']) (simp add: fastq2bam_attrs_def)
  then have f: "?ns ''func'' = Some (PFunc ''fastq2bam'')" by (simp add: list_args_def)
  have req': "list_all (present ?ns) consensus_required"
    using req by (simp add: consensus_required_def present_def overlay_other)
  have "main fl ext ?cf (Some Fastq2bam) list_cli w = dispatch ext ?ns w"
    by (rule main_parsed[OF p])
  also have "\<dots> = check_consensus ext ?ns w"
    by (rule dispatch_consensus) (rule overlay_sub[where ns=ns, OF nm])
  also have "\<dots> = call_func ext ?ns w"
    by (simp add: check_consensus_def any_none_present[OF req'] bind_io_def)
  also have "\<dots> = fastq2bam ext ?ns w" by (rule call_func_fastq2bam[where ns="?ns", OF f])
  also have "\<dots> = fastq2bam ext list_args w" by (rule fastq2bam_cong[OF ag'])
  finally show ?thesis .
qed

lemma list_run:
  "outcome (fastq2bam tools list_args sample_world) [''o/bamfiles/s.bam'']
   = (None, [''o/bamfiles/s.bam''],
      [(''ConsensusCruncher/extract_barcodes.py'',
        [(''--read1'', ''in/s_R1.fq''), (''--read2'', ''in/s_R2.fq''),
         (''--outfile'', ''o/fastq_tag/s''), (''--blist'', ''in/l.txt'')])])"
  by code_simp

text \<open>
  At that input no exception is raised: \<open>args.subparser_name\<close> is \<open>'consensus'\<close>, the
  consensus branch finds its three values and calls \<open>args.func\<close>, which is
  \<open>fastq2bam\<close>; the pattern is never matched, the barcode extraction script is started
  with the list alone, and the run goes on through the alignment.
\<close>

theorem list_only_run_reaches_extraction:
  "outcome (main no_float tools (Some (''c.ini'', renaming_config)) (Some Fastq2bam)
              list_cli sample_world)
     [''o/bamfiles/s.bam'']
   = (None, [''o/bamfiles/s.bam''],
      [(''ConsensusCruncher/extract_barcodes.py'',
        [(''--read1'', ''in/s_R1.fq''), (''--read2'', ''in/s_R2.fq''),
         (''--outfile'', ''o/fastq_tag/s''), (''--blist'', ''in/l.txt'')])])"
  by (simp only: renamed_main list_run)

text \<open>
  Unless the section \<open>[fastq2bam]\<close> of the configuration file holds a key
  \<open>subparser_name\<close>, \<open>args.subparser_name\<close> is \<open>'fastq2bam'\<close> after a fastq2bam command
  line: no option and no default of the script sets that attribute.
\<close>

lemma consume_options_no_action:
  "consume_options fl acts cli ns = Inr ns' \<Longrightarrow> find_action acts d = None \<Longrightarrow> ns' d = ns d"
proof (induction cli arbitrary: ns)
  case Nil
  then show ?case by simp
next
  case (Cons x cli)
  obtain d' s where x: "x = (d', s)" by (cases x)
  from Cons.prems(1) x obtain a where a: "find_action acts d' = Some a"
    by (auto split: option.splits)
  with Cons.prems(2) have ne: "d' \<noteq> d" by auto
  from Cons.prems(1) x a obtain v where "get_value fl (a_type a) s = Inr v"
    and "bind_res (check_value (a_choices a) v)
           (\<lambda>v'. consume_options fl acts cli (ns(d' \<mapsto> v'))) = Inr ns'"
    by (auto dest: bind_res_Inr)
  then obtain v' where "consume_options fl acts cli (ns(d' \<mapsto> v')) = Inr ns'"
    by (auto dest: bind_res_Inr)
  from Cons.IH[OF this Cons.prems(2)] ne show ?case by simp
qed

lemma convert_defaults_no_action:
  "convert_defaults fl seen acts ns = Inr ns' \<Longrightarrow> \<forall>a\<in>set acts. a_dest a \<noteq> d \<Longrightarrow> ns' d = ns d"
proof (induction acts arbitrary: ns)
  case Nil
  then show ?case by simp
next
  case (Cons a acts)
  from Cons.prems(2) have ne: "a_dest a \<noteq> d" and rest: "\<forall>a\<in>set acts. a_dest a \<noteq> d" by auto
  show ?case
  proof (cases "a_dest a \<notin> set seen \<and> (\<exists>s. a_default a = PStr s \<and> ns (a_dest a) = Some (PStr s))")
    case True
    then obtain s where s: "a_default a = PStr s" "ns (a_dest a) = Some (PStr s)"
      and unseen: "a_dest a \<notin> set seen" by auto
    from Cons.prems(1) s unseen obtain v where
      "convert_defaults fl seen acts (ns(a_dest a \<mapsto> v)) = Inr ns'"
      by (auto dest: bind_res_Inr)
    from Cons.IH[OF this rest] ne show ?thesis by simp
  next
    case False
    with Cons.prems(1) have "convert_defaults fl seen acts ns = Inr ns'"
      by (auto split: pyval.splits if_splits)
    from Cons.IH[OF this rest] show ?thesis .
  qed
qed

lemma fastq2bam_name_kept:
  assumes "parse_args fl cf Fastq2bam cli = Inr ns"
      and "\<forall>c g fa. cf = Some (c, g) \<and> cfg_fastq2bam g = Some fa \<longrightarrow> fa ''subparser_name'' = None"
  shows "ns ''subparser_name'' = Some (PStr ''fastq2bam'')"
proof -
  let ?c = "map_option snd cf"
  from assms(1) obtain pa pb where cd: "config_defaults ?c = Inr (pa, pb)"
    by (cases "config_defaults ?c") (auto simp: parse_args_def bind_res_def)
  let ?p = "sub_a_arguments pa"
  from assms(1) cd obtain ns4 where
    pk: "parse_known_args fl ?p cli = Inr ns4" and ns: "ns = main_namespace cf Fastq2bam ++ ns4"
    by (cases "parse_known_args fl ?p cli") (auto simp: parse_args_def bind_res_def)
  from pk obtain ns3 where
    co: "consume_options fl (p_actions ?p) cli
           (store_parser_defaults (p_defaults ?p) (store_action_defaults (p_actions ?p) Map.empty))
         = Inr ns3"
    and cv: "convert_defaults fl (map fst cli) (p_actions ?p) ns3 = Inr ns4"
    by (auto simp: parse_known_args_def Let_def dest: bind_res_Inr)
  from config_defaults_no_actions[OF cd] have pa: "p_actions pa = []" by simp
  have pd: "p_defaults pa ''subparser_name'' = None"
  proof (cases cf)
    case None
    with cd show ?thesis by (auto simp: config_defaults_None new_parser_def)
  next
    case (Some cg)
    obtain c g where cg: "cg = (c, g)" by (cases cg)
    from cd Some cg obtain fa where fa: "cfg_fastq2bam g = Some fa"
      by (auto simp: config_defaults_def Let_def split: option.splits)
    with assms(2) Some cg have "fa ''subparser_name'' = None" by blast
    with cd Some cg fa show ?thesis
      by (auto simp: config_defaults_def Let_def set_defaults_def new_parser_def defaults_def
            items_dict_def map_add_def split: option.splits)
  qed
  have na: "\<forall>a\<in>set (p_actions ?p). a_dest a \<noteq> ''subparser_name''"
    using pa by (simp add: sub_a_arguments_def add_argument_def set_defaults_def)
  have nf: "find_action (p_actions ?p) ''subparser_name'' = None"
    using pa by (simp add: sub_a_arguments_def add_argument_def set_defaults_def)
  have "store_parser_defaults (p_defaults ?p) (store_action_defaults (p_actions ?p) Map.empty)
          ''subparser_name'' = None"
    using pa pd
    by (simp add: sub_a_arguments_def add_argument_def set_defaults_def
          store_parser_defaults_def map_add_def)
  with consume_options_no_action[OF co nf] have "ns3 ''subparser_name'' = None" by simp
  with convert_defaults_no_action[OF cv na] have "ns4 ''subparser_name'' = None" by simp
  from overlay_name[where ns=ns4, OF this] ns show ?thesis by (simp add: subcommand_name_def)
qed

text \<open>
  C6, amended. For every fastq2bam command line (with or without configuration file)
  after which \<open>args.subparser_name\<close> is \<open>'fastq2bam'\<close>, and whose parsed arguments hold
  the six required values and a barcode list, but \<open>None\<close> as barcode pattern, the main
  program ends with \<open>TypeError\<close> in the state it started in: \<open>re.findall\<close> is applied
  to \<open>None\<close> before \<open>args.blist\<close> is looked at, and \<open>args.func\<close> is not called.
\<close>

theorem list_without_pattern_raises_TypeError:
  assumes "parse_args fl cf Fastq2bam cli = Inr ns"
      and "ns ''subparser_name'' = Some (PStr ''fastq2bam'')"
      and "list_all (present ns) fastq2bam_required"
      and "ns ''bpattern'' = Some PNone"
      and "ns ''blist'' = Some (PStr path)"
  shows "main fl ext cf (Some Fastq2bam) cli w = Inl (TypeError, w)"
  using assms
  by (simp add: main_parsed dispatch_fastq2bam check_defs any_none_present)

lemma list_only_parse:
  "\<exists>ns. parse_known_args fl (sub_a_arguments new_parser) list_cli = Inr ns
        \<and> list_all (present ns) fastq2bam_required
        \<and> ns ''bpattern'' = Some PNone \<and> ns ''blist'' = Some (PStr ''in/l.txt'')
        \<and> ns ''subparser_name'' = None"
  by (simp add: parser_defs list_cli_def present_def is_None_def fastq2bam_required_def)

theorem list_without_pattern_raises_TypeError_witness:
  "main no_float tools None (Some Fastq2bam) list_cli sample_world
   = Inl (TypeError, sample_world)"
proof -
  from list_only_parse[of no_float] obtain ns where
    pk: "parse_known_args no_float (sub_a_arguments new_parser) list_cli = Inr ns"
    and req: "list_all (present ns) fastq2bam_required"
    and bp: "ns ''bpattern'' = Some PNone" and bl: "ns ''blist'' = Some (PStr ''in/l.txt'')"
    and nm: "ns ''subparser_name'' = None"
    by blast
  let ?ns = "main_namespace None Fastq2bam ++ ns"
  have p: "parse_args no_float None Fastq2bam list_cli = Inr ?ns"
    using parse_args_compose[where cf=None and fl=no_float
        and sc=Fastq2bam and ns=ns and cli=list_cli] pk
    by (simp add: config_defaults_None)
  have n: "?ns ''subparser_name'' = Some (PStr ''fastq2bam'')"
    using overlay_name[where ns=ns and cf=None and sc=Fastq2bam, OF nm] by (simp add: subcommand_name_def)
  have r: "list_all (present ?ns) fastq2bam_required"
    using req by (simp add: fastq2bam_required_def present_def overlay_other)
  show ?thesis
    by (rule list_without_pattern_raises_TypeError[OF p n r overlay_sub[where ns=ns, OF bp]
          overlay_sub[where ns=ns, OF bl]])
qed

section \<open>Invalid barcode patterns and lists\<close>

lemma bar_parse:
  "\<exists>ns. parse_known_args fl (sub_a_arguments new_parser) bar_cli = Inr ns
        \<and> agree_on fastq2bam_attrs ns bar_args \<and> ns ''subparser_name'' = None"
  by (simp add: parser_defs bar_cli_def bar_args_def agree_on_def fastq2bam_attrs_def)

lemma bar_main:
  "main fl ext None (Some Fastq2bam) bar_cli w = check_fastq2bam ext bar_args w"
proof -
  from bar_parse[of fl] obtain ns where
    pk: "parse_known_args fl (sub_a_arguments new_parser) bar_cli = Inr ns"
    and ag: "agree_on fastq2bam_attrs ns bar_args"
    and nm: "ns ''subparser_name'' = None" by blast
  let ?ns = "main_namespace None Fastq2bam ++ ns"
  have p: "parse_args fl None Fastq2bam bar_cli = Inr ?ns"
    using parse_args_compose[where cf=None and fl=fl
        and sc=Fastq2bam and ns=ns and cli=bar_cli] pk
    by (simp add: config_defaults_None)
  have n: "?ns ''subparser_name'' = Some (PStr ''fastq2bam'')"
    using overlay_name[where ns=ns and cf=None and sc=Fastq2bam, OF nm] by (simp add: subcommand_name_def)
  have "agree_on fastq2bam_attrs ?ns bar_args"
    by (rule agree_on_main_attrs[OF ag]) (simp_all add: fastq2bam_attrs_def)
  then have "check_fastq2bam ext ?ns w = check_fastq2bam ext bar_args w"
    by (rule check_fastq2bam_cong) (simp add: bar_args_def)
  with main_parsed[OF p] dispatch_fastq2bam[where ns="?ns", OF n] show ?thesis by simp
qed

lemma bar_run:
  "outcome (check_fastq2bam tools bar_args sample_world) [''o/bamfiles/s.bam'']
   = (None, [''o/bamfiles/s.bam''],
      [(''ConsensusCruncher/extract_barcodes.py'',
        [(''--read1'', ''in/s_R1.fq''), (''--read2'', ''in/s_R2.fq''),
         (''--outfile'', ''o/fastq_tag/s''), (''--bpattern'', ''NN|NN'')])])"
  by code_simp

text \<open>
  C5, at the command line
  \<open>fastq2bam --fastq1 in/s_R1.fq --fastq2 in/s_R2.fq -o o -n _R -b bwa -r ref.fa
  -s samtools -p 'NN|NN'\<close>: the pattern holds a bar, a character outside A, C, G, T, N,
  and yet no exception is raised; the barcode extraction script is started with that
  pattern and the run goes on through the alignment, leaving the BAM file.
\<close>

theorem bar_in_pattern_reaches_extraction:
  "outcome (main no_float tools None (Some Fastq2bam) bar_cli sample_world)
     [''o/bamfiles/s.bam'']
   = (None, [''o/bamfiles/s.bam''],
      [(''ConsensusCruncher/extract_barcodes.py'',
        [(''--read1'', ''in/s_R1.fq''), (''--read2'', ''in/s_R2.fq''),
         (''--outfile'', ''o/fastq_tag/s''), (''--bpattern'', ''NN|NN'')])])"
  by (simp only: bar_main bar_run)

section \<open>What the parser can and cannot deliver to consensus\<close>

lemma convert_defaults_keeps:
  "convert_defaults fl seen acts ns = Inr ns' \<Longrightarrow>
   \<forall>a\<in>set acts. a_dest a = d \<longrightarrow> (\<forall>s. a_default a \<noteq> PStr s) \<Longrightarrow> ns' d = ns d"
proof (induction acts arbitrary: ns)
  case Nil
  then show ?case by simp
next
  case (Cons a acts)
  from Cons.prems(2) have rest: "\<forall>a\<in>set acts. a_dest a = d \<longrightarrow> (\<forall>s. a_default a \<noteq> PStr s)"
    by simp
  show ?case
  proof (cases "a_dest a \<notin> set seen \<and> (\<exists>s. a_default a = PStr s \<and> ns (a_dest a) = Some (PStr s))")
    case True
    then obtain s where s: "a_default a = PStr s" "ns (a_dest a) = Some (PStr s)"
      and unseen: "a_dest a \<notin> set seen" by auto
    with Cons.prems(2) have ne: "a_dest a \<noteq> d" by auto
    from Cons.prems(1) s unseen obtain v where
      "convert_defaults fl seen acts (ns(a_dest a \<mapsto> v)) = Inr ns'"
      by (auto dest: bind_res_Inr)
    from Cons.IH[OF this rest] ne show ?thesis by simp
  next
    case False
    with Cons.prems(1) have "convert_defaults fl seen acts ns = Inr ns'"
      by (auto split: pyval.splits if_splits)
    from Cons.IH[OF this rest] show ?thesis .
  qed
qed

lemma convert_defaults_str:
  "convert_defaults fl seen acts ns = Inr ns' \<Longrightarrow>
   \<forall>a\<in>set acts. a_dest a = d \<longrightarrow> a_type a = TStr \<Longrightarrow>
   \<exists>s. ns d = Some (PStr s) \<Longrightarrow> \<exists>s. ns' d = Some (PStr s)"
proof (induction acts arbitrary: ns)
  case Nil
  then show ?case by simp
next
  case (Cons a acts)
  from Cons.prems(2) have rest: "\<forall>a\<in>set acts. a_dest a = d \<longrightarrow> a_type a = TStr" by simp
  show ?case
  proof (cases "a_dest a \<notin> set seen \<and> (\<exists>s. a_default a = PStr s \<and> ns (a_dest a) = Some (PStr s))")
    case True
    then obtain s where s: "a_default a = PStr s" "ns (a_dest a) = Some (PStr s)"
      and unseen: "a_dest a \<notin> set seen" by auto
    from Cons.prems(1) s unseen obtain v where v: "get_value fl (a_type a) s = Inr v"
      and c: "convert_defaults fl seen acts (ns(a_dest a \<mapsto> v)) = Inr ns'"
      by (auto dest: bind_res_Inr)
    have "\<exists>s'. (ns(a_dest a \<mapsto> v)) d = Some (PStr s')"
    proof (cases "a_dest a = d")
      case True
      with Cons.prems(2) have "a_type a = TStr" by simp
      with v True show ?thesis by auto
    next
      case False
      with Cons.prems(3) show ?thesis by simp
    qed
    from Cons.IH[OF c rest this] show ?thesis .
  next
    case False
    with Cons.prems(1) have "convert_defaults fl seen acts ns = Inr ns'"
      by (auto split: pyval.splits if_splits)
    from Cons.IH[OF this rest Cons.prems(3)] show ?thesis .
  qed
qed

lemma last_occurrence:
  assumes "d \<in> fst ` set cli"
  shows "\<exists>pre s post. cli = pre @ (d, s) # post \<and> d \<notin> fst ` set post"
proof -
  from assms have "\<exists>x\<in>set cli. fst x = d" by auto
  from split_list_last_prop[OF this] obtain pre x post where
    "cli = pre @ x # post" "fst x = d" "\<forall>z\<in>set post. fst z \<noteq> d" by blast
  then show ?thesis by (cases x) auto
qed

lemma parse_args_parts:
  assumes "parse_args fl cf sc cli = Inr ns"
  obtains pa pb ns3 ns4 where
    "config_defaults (map_option snd cf) = Inr (pa, pb)"
    "consume_options fl
       (p_actions (case sc of Fastq2bam \<Rightarrow> sub_a_arguments pa | Consensus \<Rightarrow> sub_b_arguments pb))
       cli
       (store_parser_defaults
          (p_defaults (case sc of Fastq2bam \<Rightarrow> sub_a_arguments pa | Consensus \<Rightarrow> sub_b_arguments pb))
          (store_action_defaults
             (p_actions (case sc of Fastq2bam \<Rightarrow> sub_a_arguments pa
                         | Consensus \<Rightarrow> sub_b_arguments pb)) Map.empty)) = Inr ns3"
    "convert_defaults fl (map fst cli)
       (p_actions (case sc of Fastq2bam \<Rightarrow> sub_a_arguments pa | Consensus \<Rightarrow> sub_b_arguments pb))
       ns3 = Inr ns4"
    "ns = main_namespace cf sc ++ ns4"
proof -
  let ?c = "map_option snd cf"
  from assms obtain pa pb where cd: "config_defaults ?c = Inr (pa, pb)"
    by (cases "config_defaults ?c") (auto simp: parse_args_def bind_res_def)
  let ?p = "case sc of Fastq2bam \<Rightarrow> sub_a_arguments pa | Consensus \<Rightarrow> sub_b_arguments pb"
  from assms cd obtain ns4 where
    pk: "parse_known_args fl ?p cli = Inr ns4"
    and ns: "ns = main_namespace cf sc ++ ns4"
    by (cases "parse_known_args fl ?p cli") (auto simp: parse_args_def bind_res_def)
  from pk obtain ns3 where
    "consume_options fl (p_actions ?p) cli
       (store_parser_defaults (p_defaults ?p) (store_action_defaults (p_actions ?p) Map.empty))
     = Inr ns3"
    "convert_defaults fl (map fst cli) (p_actions ?p) ns3 = Inr ns4"
    by (auto simp: parse_known_args_def Let_def dest: bind_res_Inr)
  with cd ns show ?thesis using that by blast
qed

text \<open>
  Whatever the command line and the configuration file: \<open>args.bedfile\<close> is a string.
  The option has \<open>type=str\<close> and a string as its own default, which also shadows a
  value of the configuration file.
\<close>

lemma bedfile_always_str:
  assumes "parse_args fl cf Consensus cli = Inr ns"
  shows "\<exists>s. ns ''bedfile'' = Some (PStr s)"
proof (cases "''bedfile'' \<in> fst ` set cli")
  case True
  from last_occurrence[OF this] obtain pre s post where
    cli: "cli = pre @ (''bedfile'', s) # post" and l: "''bedfile'' \<notin> fst ` set post" by blast
  from parse_args_last[OF assms[unfolded cli] l] obtain t v where
    "option_type Consensus ''bedfile'' = Some t" "get_value fl t s = Inr v"
    "ns ''bedfile'' = Some v" by blast
  moreover have "option_type Consensus ''bedfile'' = Some TStr"
    by (simp add: option_type_def sub_b_arguments_def add_argument_def set_defaults_def
          new_parser_def)
  ultimately show ?thesis by auto
next
  case False
  from assms obtain pa pb ns3 ns4 where
    cd: "config_defaults (map_option snd cf) = Inr (pa, pb)"
    and co: "consume_options fl (p_actions (sub_b_arguments pb)) cli
               (store_parser_defaults (p_defaults (sub_b_arguments pb))
                  (store_action_defaults (p_actions (sub_b_arguments pb)) Map.empty)) = Inr ns3"
    and cv: "convert_defaults fl (map fst cli) (p_actions (sub_b_arguments pb)) ns3 = Inr ns4"
    and ns: "ns = main_namespace cf Consensus ++ ns4"
    by (rule parse_args_parts) auto
  from config_defaults_no_actions[OF cd] have pb: "p_actions pb = []" by simp
  have "store_parser_defaults (p_defaults (sub_b_arguments pb))
          (store_action_defaults (p_actions (sub_b_arguments pb)) Map.empty) ''bedfile''
        = Some (PStr bedfile)"
    using pb
    by (simp add: sub_b_arguments_def add_argument_def set_defaults_def
          store_parser_defaults_def)
  with consume_options_other[OF co False] have "ns3 ''bedfile'' = Some (PStr bedfile)" by simp
  moreover have "\<forall>a\<in>set (p_actions (sub_b_arguments pb)). a_dest a = ''bedfile'' \<longrightarrow> a_type a = TStr"
    using pb by (simp add: sub_b_arguments_def add_argument_def set_defaults_def)
  ultimately have "\<exists>s. ns4 ''bedfile'' = Some (PStr s)"
    using convert_defaults_str[OF cv] by blast
  then obtain s where "ns4 ''bedfile'' = Some (PStr s)" ..
  from overlay_sub[where ns=ns4, OF this] ns show ?thesis by blast
qed

text \<open>
  Without \<open>--config\<close> and without \<open>--scorrect\<close> on the command line, \<open>args.scorrect\<close> is
  \<open>None\<close>: the dictionary of defaults, which holds \<open>True\<close>, is installed only when a
  configuration file is given.
\<close>

lemma scorrect_without_config:
  assumes "parse_args fl None Consensus cli = Inr ns"
      and "''scorrect'' \<notin> fst ` set cli"
  shows "ns ''scorrect'' = Some PNone"
proof -
  from assms(1) obtain pa pb ns3 ns4 where
    cd: "config_defaults None = Inr (pa, pb)"
    and co: "consume_options fl (p_actions (sub_b_arguments pb)) cli
               (store_parser_defaults (p_defaults (sub_b_arguments pb))
                  (store_action_defaults (p_actions (sub_b_arguments pb)) Map.empty)) = Inr ns3"
    and cv: "convert_defaults fl (map fst cli) (p_actions (sub_b_arguments pb)) ns3 = Inr ns4"
    and ns: "ns = main_namespace None Consensus ++ ns4"
    by (rule parse_args_parts) auto
  from cd have pb: "pb = new_parser" by (simp add: config_defaults_None)
  have "store_parser_defaults (p_defaults (sub_b_arguments pb))
          (store_action_defaults (p_actions (sub_b_arguments pb)) Map.empty) ''scorrect''
        = Some PNone"
    unfolding pb
    by (simp add: sub_b_arguments_def add_argument_def set_defaults_def new_parser_def
          store_parser_defaults_def)
  with consume_options_other[OF co assms(2)] have "ns3 ''scorrect'' = Some PNone" by simp
  moreover have "\<forall>a\<in>set (p_actions (sub_b_arguments pb)).
                   a_dest a = ''scorrect'' \<longrightarrow> (\<forall>s. a_default a \<noteq> PStr s)"
    unfolding pb
    by (simp add: sub_b_arguments_def add_argument_def set_defaults_def new_parser_def)
  ultimately have "ns4 ''scorrect'' = Some PNone"
    using convert_defaults_keeps[OF cv] by simp
  from overlay_sub[where ns=ns4, OF this] ns show ?thesis by simp
qed

section \<open>Runs of the consensus command\<close>

lemma consensus_main_from_parse:
  assumes "config_defaults (map_option snd cf) = Inr (pa, pb)"
      and "parse_known_args fl (sub_b_arguments pb) cli = Inr ns"
      and "agree_on consensus_attrs ns args"
      and "ns ''subparser_name'' = None"
      and "args ''func'' = Some (PFunc ''consensus'')"
  shows "main fl ext cf (Some Consensus) cli w = check_consensus ext args w"
proof -
  let ?ns = "main_namespace cf Consensus ++ ns"
  have p: "parse_args fl cf Consensus cli = Inr ?ns"
    using parse_args_compose[where cf=cf and fl=fl
        and sc=Consensus and ns=ns and cli=cli and pa=pa and pb=pb] assms(1,2)
    by simp
  have n: "?ns ''subparser_name'' = Some (PStr ''consensus'')"
    using overlay_name[where ns=ns and cf=cf and sc=Consensus, OF assms(4)] by (simp add: subcommand_name_def)
  have "agree_on consensus_attrs ?ns args"
    by (rule agree_on_main_attrs[OF assms(3)]) (simp_all add: consensus_attrs_def)
  from check_consensus_cong[OF this assms(5)] main_parsed[OF p] dispatch_consensus[where ns="?ns", OF n]
  show ?thesis by simp
qed

lemmas example_defs =
  plain_cli_def plain_args_def bed_off_cli_def bed_off_args_def sc_off_cli_def sc_off_args_def
  cleanup_cli_def cleanup_args_def agree_on_def consensus_attrs_def cleanup_help_def

lemma plain_main:
  "main fl ext None (Some Consensus) plain_cli w = check_consensus ext plain_args w"
proof -
  have "\<exists>ns. parse_known_args fl (sub_b_arguments new_parser) plain_cli = Inr ns
             \<and> agree_on consensus_attrs ns plain_args \<and> ns ''subparser_name'' = None"
    by (simp add: parser_defs example_defs)
  moreover have "plain_args ''func'' = Some (PFunc ''consensus'')"
    by (simp add: plain_args_def)
  ultimately show ?thesis
    using consensus_main_from_parse[where cf=None]
    by (auto simp: config_defaults_None)
qed

lemma bed_off_main:
  "main fl ext None (Some Consensus) bed_off_cli w = check_consensus ext bed_off_args w"
proof -
  have "\<exists>ns. parse_known_args fl (sub_b_arguments new_parser) bed_off_cli = Inr ns
             \<and> agree_on consensus_attrs ns bed_off_args \<and> ns ''subparser_name'' = None"
    by (simp add: parser_defs example_defs)
  moreover have "bed_off_args ''func'' = Some (PFunc ''consensus'')"
    by (simp add: bed_off_args_def plain_args_def)
  ultimately show ?thesis
    using consensus_main_from_parse[where cf=None]
    by (auto simp: config_defaults_None)
qed

lemma sc_off_main:
  "main fl ext (Some (''c.ini'', empty_config)) (Some Consensus) sc_off_cli w
   = check_consensus ext sc_off_args w"
proof -
  have "\<exists>ns. parse_known_args fl
               (sub_b_arguments
                  (set_defaults (defaults ++ items_dict Map.empty ++ items_dict Map.empty)
                     new_parser))
               sc_off_cli = Inr ns
             \<and> agree_on consensus_attrs ns sc_off_args \<and> ns ''subparser_name'' = None"
    by (simp add: parser_defs example_defs)
  moreover have "sc_off_args ''func'' = Some (PFunc ''consensus'')"
    by (simp add: sc_off_args_def)
  ultimately show ?thesis
    using consensus_main_from_parse[where cf="Some (''c.ini'', empty_config)"]
    by (auto simp: config_defaults_Some empty_config_def)
qed

lemma cleanup_main:
  "main fl ext (Some (''c.ini'', empty_config)) (Some Consensus) cleanup_cli w
   = check_consensus ext cleanup_args w"
proof -
  have "\<exists>ns. parse_known_args fl
               (sub_b_arguments
                  (set_defaults (defaults ++ items_dict Map.empty ++ items_dict Map.empty)
                     new_parser))
               cleanup_cli = Inr ns
             \<and> agree_on consensus_attrs ns cleanup_args \<and> ns ''subparser_name'' = None"
    by (simp add: parser_defs example_defs)
  moreover have "cleanup_args ''func'' = Some (PFunc ''consensus'')"
    by (simp add: cleanup_args_def sc_off_args_def)
  ultimately show ?thesis
    using consensus_main_from_parse[where cf="Some (''c.ini'', empty_config)"]
    by (auto simp: config_defaults_Some empty_config_def)
qed

section \<open>Finalization\<close>

text \<open>
  The move of the statistics to the sample directory starts from \<open>dcs_sc/\<close>, whatever
  the stages before have done: without that file it raises, in any state and for any
  behaviour of the external programs.
\<close>

lemma move_needs_dcs_sc_stats:
  "files w (sample_dir @ ''/dcs_sc/'' @ identifier @ ''.stats.txt'') = None \<Longrightarrow>
   move_to_sample_dir sample_dir identifier w
   = Inl (FileNotFoundError (sample_dir @ ''/dcs_sc/'' @ identifier @ ''.stats.txt''), w)"
  by (simp add: move_to_sample_dir_def os_rename_def bind_io_def)

text \<open>
  The cleanup removes the timing log and then asks for the bad-read file under
  \<open>sssc/\<close>: with no such file it raises there, having deleted the timing log only.
\<close>

lemma cleanup_stops_at_sssc:
  assumes "files w (sample_dir @ ''/'' @ identifier @ ''.time_tracker.txt'') = Some c"
      and "files w (sample_dir @ ''/sssc/'' @ identifier @ ''.badReads.bam'') = None"
  shows "remove_all (cleanup_paths sample_dir identifier) w
         = Inl (FileNotFoundError (sample_dir @ ''/sssc/'' @ identifier @ ''.badReads.bam''),
                w\<lparr>files := (files w)(sample_dir @ ''/'' @ identifier @ ''.time_tracker.txt'' := None)\<rparr>)"
  using assms by (simp add: cleanup_paths_def os_remove_def bind_io_def)

section \<open>Singleton correction switched off\<close>

lemma sc_off_run:
  "outcome (check_consensus tools sc_off_args sample_world)
     [''o/s/s.stats.txt'', ''o/s/dcs/s.stats.txt'', ''o/s/dcs_sc/s.all.unique.dcs.sorted.bam'',
      ''o/s/sscs_sc/s.uncorrected.sorted.bam'']
   = (Some (FileNotFoundError ''o/s/dcs_sc/s.stats.txt''),
      [''o/s/dcs/s.stats.txt''],
      [(''ConsensusCruncher/SSCS_maker.py'',
        [(''--infile'', ''in/s.bam''), (''--outfile'', ''o/s/sscs/s.sscs.bam''),
         (''--cutoff'', ''0.7''), (''--bedfile'', ''ConsensusCruncher/cytoBand.txt'')]),
       (''ConsensusCruncher/DCS_maker.py'',
        [(''--infile'', ''o/s/sscs/s.sscs.sorted.bam''), (''--outfile'', ''o/s/dcs/s.dcs.bam''),
         (''--bedfile'', ''ConsensusCruncher/cytoBand.txt'')])])"
  by code_simp

text \<open>
  C3, at the command line \<open>-c c.ini consensus -i in/s.bam -o o -s samtools --scorrect ''\<close>
  (\<open>args.scorrect\<close> is \<open>False\<close>): the SSCS and DCS stages run and no singleton-correction
  artifact appears, but no merge is made either, and the run ends in
  \<open>FileNotFoundError\<close> at the first move of the finalization: the statistics file is
  still under \<open>dcs/\<close> and never reaches the sample directory.
\<close>

theorem scorrect_off_stops_before_finalization:
  "outcome (main no_float tools (Some (''c.ini'', empty_config)) (Some Consensus)
              sc_off_cli sample_world)
     [''o/s/s.stats.txt'', ''o/s/dcs/s.stats.txt'', ''o/s/dcs_sc/s.all.unique.dcs.sorted.bam'',
      ''o/s/sscs_sc/s.uncorrected.sorted.bam'']
   = (Some (FileNotFoundError ''o/s/dcs_sc/s.stats.txt''),
      [''o/s/dcs/s.stats.txt''],
      [(''ConsensusCruncher/SSCS_maker.py'',
        [(''--infile'', ''in/s.bam''), (''--outfile'', ''o/s/sscs/s.sscs.bam''),
         (''--cutoff'', ''0.7''), (''--bedfile'', ''ConsensusCruncher/cytoBand.txt'')]),
       (''ConsensusCruncher/DCS_maker.py'',
        [(''--infile'', ''o/s/sscs/s.sscs.sorted.bam''), (''--outfile'', ''o/s/dcs/s.dcs.bam''),
         (''--bedfile'', ''ConsensusCruncher/cytoBand.txt'')])])"
  by (simp only: sc_off_main sc_off_run)

section \<open>The default of the singleton-correction flag\<close>

lemma plain_run:
  "outcome (check_consensus tools plain_args rerun_world) []
   = (Some (FileNotFoundError ''o/s/dcs_sc/s.stats.txt''), [],
      [(''ConsensusCruncher/SSCS_maker.py'',
        [(''--infile'', ''in/s.bam''), (''--outfile'', ''o/s/sscs/s.sscs.bam''),
         (''--cutoff'', ''None''), (''--bedfile'', ''ConsensusCruncher/cytoBand.txt'')]),
       (''ConsensusCruncher/DCS_maker.py'',
        [(''--infile'', ''o/s/sscs/s.sscs.sorted.bam''), (''--outfile'', ''o/s/dcs/s.dcs.bam''),
         (''--bedfile'', ''ConsensusCruncher/cytoBand.txt'')])])"
  by code_simp

lemma plain_scorrect:
  "parsed (parse_args fl None Consensus plain_cli) ''scorrect'' = Some PNone"
proof -
  have "\<exists>ns. parse_known_args fl (sub_b_arguments new_parser) plain_cli = Inr ns"
    by (simp add: parser_defs plain_cli_def)
  then obtain ns1 where "parse_known_args fl (sub_b_arguments new_parser) plain_cli = Inr ns1" ..
  then have "\<exists>ns. parse_args fl None Consensus plain_cli = Inr ns"
    using parse_args_compose[where cf=None and fl=fl and sc=Consensus
        and ns=ns1 and cli=plain_cli]
    by (simp add: config_defaults_None)
  then obtain ns where ns: "parse_args fl None Consensus plain_cli = Inr ns" ..
  from scorrect_without_config[OF ns] have "ns ''scorrect'' = Some PNone"
    by (simp add: plain_cli_def)
  with ns show ?thesis by (simp add: parsed_def)
qed

text \<open>
  C4, at the command line \<open>consensus -i in/s.bam -o o -s samtools\<close>, with no
  configuration file and no \<open>--scorrect\<close>: \<open>args.scorrect\<close> is \<open>None\<close>, which is not
  \<open>True\<close>, and the run starts the SSCS and the DCS maker only; the singleton-correction
  script is never started.
\<close>

theorem scorrect_default_is_off_without_config:
  "parsed (parse_args no_float None Consensus plain_cli) ''scorrect'' = Some PNone
   \<and> \<not> is_True PNone
   \<and> outcome (main no_float tools None (Some Consensus) plain_cli rerun_world) []
     = (Some (FileNotFoundError ''o/s/dcs_sc/s.stats.txt''), [],
        [(''ConsensusCruncher/SSCS_maker.py'',
          [(''--infile'', ''in/s.bam''), (''--outfile'', ''o/s/sscs/s.sscs.bam''),
           (''--cutoff'', ''None''), (''--bedfile'', ''ConsensusCruncher/cytoBand.txt'')]),
         (''ConsensusCruncher/DCS_maker.py'',
          [(''--infile'', ''o/s/sscs/s.sscs.sorted.bam''), (''--outfile'', ''o/s/dcs/s.dcs.bam''),
           (''--bedfile'', ''ConsensusCruncher/cytoBand.txt'')])])"
  by (simp only: plain_main plain_run plain_scorrect is_True_def) simp

section \<open>Switching the bedfile off\<close>

lemma bed_off_run:
  "outcome (check_consensus tools bed_off_args rerun_world) []
   = (Some (FileNotFoundError ''o/s/dcs_sc/s.stats.txt''), [],
      [(''ConsensusCruncher/SSCS_maker.py'',
        [(''--infile'', ''in/s.bam''), (''--outfile'', ''o/s/sscs/s.sscs.bam''),
         (''--cutoff'', ''None''), (''--bedfile'', ''False'')]),
       (''ConsensusCruncher/DCS_maker.py'',
        [(''--infile'', ''o/s/sscs/s.sscs.sorted.bam''), (''--outfile'', ''o/s/dcs/s.dcs.bam''),
         (''--bedfile'', ''False'')])])"
  by code_simp

text \<open>
  Were \<open>args.bedfile\<close> the boolean \<open>False\<close>, the scripts would be started without
  \<open>--bedfile\<close>; by \<open>bedfile_always_str\<close> no command line brings that about.
\<close>

lemma bedfile_boolean_False_omits_flag:
  "outcome (check_consensus tools (plain_args(''bedfile'' \<mapsto> PBool False)) rerun_world) []
   = (Some (FileNotFoundError ''o/s/dcs_sc/s.stats.txt''), [],
      [(''ConsensusCruncher/SSCS_maker.py'',
        [(''--infile'', ''in/s.bam''), (''--outfile'', ''o/s/sscs/s.sscs.bam''),
         (''--cutoff'', ''None'')]),
       (''ConsensusCruncher/DCS_maker.py'',
        [(''--infile'', ''o/s/sscs/s.sscs.sorted.bam''), (''--outfile'', ''o/s/dcs/s.dcs.bam'')])])"
  by code_simp

text \<open>
  C7, at the command line \<open>consensus -i in/s.bam -o o -s samtools -b False\<close>, the
  spelling the help text gives for switching the bedfile off: \<open>args.bedfile\<close> is the
  string \<open>'False'\<close>, the test \<open>args.bedfile is False\<close> fails, and the SSCS maker and the
  DCS maker are started with \<open>--bedfile False\<close>.
\<close>

theorem bedfile_False_is_passed_on:
  "outcome (main no_float tools None (Some Consensus) bed_off_cli rerun_world) []
   = (Some (FileNotFoundError ''o/s/dcs_sc/s.stats.txt''), [],
      [(''ConsensusCruncher/SSCS_maker.py'',
        [(''--infile'', ''in/s.bam''), (''--outfile'', ''o/s/sscs/s.sscs.bam''),
         (''--cutoff'', ''None''), (''--bedfile'', ''False'')]),
       (''ConsensusCruncher/DCS_maker.py'',
        [(''--infile'', ''o/s/sscs/s.sscs.sorted.bam''), (''--outfile'', ''o/s/dcs/s.dcs.bam''),
         (''--bedfile'', ''False'')])])"
  by (simp only: bed_off_main bed_off_run)

section \<open>Cleanup\<close>

lemma cleanup_run:
  "outcome (check_consensus tools cleanup_args sample_world) cleanup_targets
   = (Some (FileNotFoundError ''o/s/sssc/s.badReads.bam''),
      tl cleanup_targets,
      [(''ConsensusCruncher/SSCS_maker.py'',
        [(''--infile'', ''in/s.bam''), (''--outfile'', ''o/s/sscs/s.sscs.bam''),
         (''--cutoff'', ''0.7''), (''--bedfile'', ''ConsensusCruncher/cytoBand.txt'')]),
       (''ConsensusCruncher/DCS_maker.py'',
        [(''--infile'', ''o/s/sscs/s.sscs.sorted.bam''), (''--outfile'', ''o/s/dcs/s.dcs.bam''),
         (''--bedfile'', ''ConsensusCruncher/cytoBand.txt'')]),
       (''ConsensusCruncher/singleton_correction.py'',
        [(''--singleton'', ''o/s/sscs/s.singleton.sorted.bam''),
         (''--bedfile'', ''ConsensusCruncher/cytoBand.txt'')]),
       (''ConsensusCruncher/DCS_maker.py'',
        [(''--infile'', ''o/s/sscs_sc/s.sscs.sc.sorted.bam''),
         (''--outfile'', ''o/s/dcs_sc/s.dcs.sc.bam''),
         (''--bedfile'', ''ConsensusCruncher/cytoBand.txt'')])])"
  by code_simp

text \<open>
  C8, at the command line \<open>-c c.ini consensus -i in/s.bam -o o -s samtools --cleanup
  True\<close>: all stages run, the finalization moves the files, and the cleanup ends in
  \<open>FileNotFoundError\<close> at \<open>o/s/sssc/s.badReads.bam\<close>, a directory the run never
  creates. Of the twelve files the cleanup is meant to delete, the timing log is gone
  and the eleven others are still there.
\<close>

theorem cleanup_stops_at_misspelt_directory:
  "outcome (main no_float tools (Some (''c.ini'', empty_config)) (Some Consensus)
              cleanup_cli sample_world) cleanup_targets
   = (Some (FileNotFoundError ''o/s/sssc/s.badReads.bam''),
      tl cleanup_targets,
      [(''ConsensusCruncher/SSCS_maker.py'',
        [(''--infile'', ''in/s.bam''), (''--outfile'', ''o/s/sscs/s.sscs.bam''),
         (''--cutoff'', ''0.7''), (''--bedfile'', ''ConsensusCruncher/cytoBand.txt'')]),
       (''ConsensusCruncher/DCS_maker.py'',
        [(''--infile'', ''o/s/sscs/s.sscs.sorted.bam''), (''--outfile'', ''o/s/dcs/s.dcs.bam''),
         (''--bedfile'', ''ConsensusCruncher/cytoBand.txt'')]),
       (''ConsensusCruncher/singleton_correction.py'',
        [(''--singleton'', ''o/s/sscs/s.singleton.sorted.bam''),
         (''--bedfile'', ''ConsensusCruncher/cytoBand.txt'')]),
       (''ConsensusCruncher/DCS_maker.py'',
        [(''--infile'', ''o/s/sscs_sc/s.sscs.sc.sorted.bam''),
         (''--outfile'', ''o/s/dcs_sc/s.dcs.sc.bam''),
         (''--bedfile'', ''ConsensusCruncher/cytoBand.txt'')])])"
  by (simp only: cleanup_main cleanup_run)

section \<open>The cutoff of the SSCS Caller\<close>

lemma bump_cnt: "cnt (bump b t) x = cnt t x + (if x = b then 1 else 0)"
  by (induction t) (auto simp: cnt_def)

lemma bump_keys: "fst ` set (bump b t) = insert b (fst ` set t)"
proof (induction t)
  case Nil
  then show ?case by simp
next
  case (Cons e t)
  obtain x n where "e = (x, n)" by (cases e)
  with Cons show ?case by (cases "x = b") (simp_all add: insert_commute)
qed

lemma bump_distinct: "distinct (map fst t) \<Longrightarrow> distinct (map fst (bump b t))"
proof (induction t)
  case Nil
  then show ?case by simp
next
  case (Cons e t)
  obtain x n where e: "e = (x, n)" by (cases e)
  with Cons show ?case
    using bump_keys[of b t] by (auto simp: image_iff)
qed

lemma foldl_bump_cnt: "cnt (foldl (\<lambda>t b. bump b t) acc col) x = cnt acc x + count_list col x"
  by (induction col arbitrary: acc) (auto simp: bump_cnt)

lemma foldl_bump_keys: "fst ` set (foldl (\<lambda>t b. bump b t) acc col) = fst ` set acc \<union> set col"
  by (induction col arbitrary: acc) (auto simp: bump_keys)

lemma foldl_bump_distinct:
  "distinct (map fst acc) \<Longrightarrow> distinct (map fst (foldl (\<lambda>t b. bump b t) acc col))"
  by (induction col arbitrary: acc) (auto simp: bump_distinct)

lemma tally_cnt: "cnt (tally col) x = count_list col x"
  unfolding tally_def foldl_bump_cnt by (simp add: cnt_def)

lemma tally_keys: "fst ` set (tally col) = set col"
  by (simp add: tally_def foldl_bump_keys)

lemma tally_distinct: "distinct (map fst (tally col))"
  by (simp add: tally_def foldl_bump_distinct)

lemma majority_None: "majority t = None \<longleftrightarrow> t = []"
  by (induction t) (auto split: option.splits)

lemma majority_max:
  "majority t = Some (b, n) \<Longrightarrow> (b, n) \<in> set t \<and> (\<forall>(x, m)\<in>set t. m \<le> n)"
proof (induction t arbitrary: b n)
  case Nil
  then show ?case by simp
next
  case (Cons e t)
  show ?case
  proof (cases "majority t")
    case None
    then have "t = []" by (simp add: majority_None)
    with Cons.prems None show ?thesis by auto
  next
    case (Some m)
    obtain b' n' where m: "m = (b', n')" by (cases m)
    from Cons.IH[of b' n'] Some m
    have ih: "(b', n') \<in> set t" "\<forall>(x, k)\<in>set t. k \<le> n'" by auto
    show ?thesis
    proof (cases "snd e < n'")
      case True
      with Cons.prems Some m have "b = b'" "n = n'" by auto
      with ih True show ?thesis by (cases e) auto
    next
      case False
      with Cons.prems Some m have e: "e = (b, n)" by auto
      with False ih show ?thesis by fastforce
    qed
  qed
qed

text \<open>The base a non-empty column votes for is one of its bases with the highest count.\<close>

lemma majority_tally:
  assumes "col \<noteq> []"
  shows "\<exists>b. majority (tally col) = Some (b, count_list col b) \<and> b \<in> set col
             \<and> (\<forall>x. count_list col x \<le> count_list col b)"
proof -
  from assms tally_keys[of col] have "tally col \<noteq> []" by auto
  then obtain b n where m: "majority (tally col) = Some (b, n)"
    by (cases "majority (tally col)") (auto simp: majority_None)
  from majority_max[OF m] have mem: "(b, n) \<in> set (tally col)"
    and mx: "\<forall>(x, k)\<in>set (tally col). k \<le> n" by auto
  from mem tally_distinct[of col] have "map_of (tally col) b = Some n" by simp
  then have n: "n = count_list col b" using tally_cnt[of col b] by (simp add: cnt_def)
  from mem tally_keys[of col] have b: "b \<in> set col" by force
  have "count_list col x \<le> n" for x
  proof (cases "map_of (tally col) x")
    case None
    then have "cnt (tally col) x = 0" by (simp add: cnt_def)
    then show ?thesis by (simp add: tally_cnt)
  next
    case (Some k)
    then have "(x, k) \<in> set (tally col)" by (rule map_of_SomeD)
    with mx have "k \<le> n" by auto
    moreover from Some have "cnt (tally col) x = k" by (simp add: cnt_def)
    ultimately show ?thesis by (simp add: tally_cnt)
  qed
  with m n b show ?thesis by auto
qed

lemma window_covered: "j < window fam \<Longrightarrow> \<exists>r\<in>set fam. j < length r"
  by (induction fam) (auto simp: window_def less_max_iff_disj)

lemma column_nonempty: "j < window fam \<Longrightarrow> column fam j \<noteq> []"
  using window_covered[of j fam] by (auto simp: column_def filter_empty_conv)

text \<open>
  C1. For every family and every column \<open>j\<close> of its window, with a cutoff of at most 1
  as the configuration requires: the column has a majority base \<open>b\<close>, a base of the
  column that no other outnumbers, and the consensus holds \<open>b\<close> at \<open>j\<close> exactly when
  \<open>count(b) / family_size \<ge> cutoff\<close> in exact rational arithmetic, and N otherwise.
\<close>

theorem sscs_calls_majority_at_cutoff:
  assumes "fam \<noteq> []" and "j < window fam" and "cutoff \<le> 1"
  shows "\<exists>b. b \<in> set (column fam j)
            \<and> (\<forall>x. count_list (column fam j) x \<le> count_list (column fam j) b)
            \<and> sscs cutoff fam ! j
              = (if cutoff \<le> of_nat (count_list (column fam j) b) / of_nat (length fam)
                 then b else BaseN)"
proof (cases "\<exists>r. fam = [r]")
  case True
  then obtain r where fam: "fam = [r]" ..
  with assms(2) have j: "j < length r" by (simp add: window_def)
  with fam assms(3) show ?thesis by (simp add: column_def sscs_def)
next
  case False
  with assms(1) have s: "sscs cutoff fam
      = map (\<lambda>j. call_column cutoff (length fam) (column fam j)) [0..<window fam]"
    by (auto simp: sscs_def split: list.splits)
  from majority_tally[OF column_nonempty[OF assms(2)]] obtain b where
    m: "majority (tally (column fam j)) = Some (b, count_list (column fam j) b)"
    and b: "b \<in> set (column fam j)"
    and mx: "\<forall>x. count_list (column fam j) x \<le> count_list (column fam j) b" by blast
  from s assms(2) m have "sscs cutoff fam ! j
      = (if cutoff \<le> of_nat (count_list (column fam j) b) / of_nat (length fam)
         then b else BaseN)"
    by (simp add: call_column_def)
  with b mx show ?thesis by blast
qed

theorem sscs_calls_majority_at_cutoff_witness:
  "[[BaseA], [BaseA], [BaseA], [BaseA], [BaseG]] \<noteq> []
   \<and> 0 < window [[BaseA], [BaseA], [BaseA], [BaseA], [BaseG]]
   \<and> (7 / 10 :: rat) \<le> 1
   \<and> (\<exists>b. b \<in> set (column [[BaseA], [BaseA], [BaseA], [BaseA], [BaseG]] 0)
          \<and> (\<forall>x. count_list (column [[BaseA], [BaseA], [BaseA], [BaseA], [BaseG]] 0) x
                   \<le> count_list (column [[BaseA], [BaseA], [BaseA], [BaseA], [BaseG]] 0) b)
          \<and> sscs (7 / 10) [[BaseA], [BaseA], [BaseA], [BaseA], [BaseG]] ! 0
            = (if (7 / 10 :: rat)
                    \<le> of_nat (count_list (column [[BaseA], [BaseA], [BaseA], [BaseA], [BaseG]] 0) b)
                       / of_nat (length [[BaseA], [BaseA], [BaseA], [BaseA], [BaseG]])
               then b else BaseN))"
proof -
  have h: "[[BaseA], [BaseA], [BaseA], [BaseA], [BaseG]] \<noteq> []"
    "0 < window [[BaseA], [BaseA], [BaseA], [BaseA], [BaseG]]" "(7 / 10 :: rat) \<le> 1"
    by (simp_all add: window_def)
  from sscs_calls_majority_at_cutoff[OF h] h show ?thesis by blast
qed

text \<open>The scenarios of the specification, and a family whose vote lands on the cutoff.\<close>

lemma scenario_two_of_three:
  "sscs (7 / 10) [[BaseA], [BaseA], [BaseG]] = [BaseN]"
  by (simp add: sscs_def window_def column_def call_column_def tally_def)

lemma scenario_four_of_five:
  "sscs (7 / 10) [[BaseA], [BaseA], [BaseA], [BaseA], [BaseG]] = [BaseA]"
  by (simp add: sscs_def window_def column_def call_column_def tally_def)

lemma scenario_on_the_cutoff:
  "sscs (4 / 5) [[BaseA], [BaseA], [BaseA], [BaseA], [BaseG]] = [BaseA]"
  by (simp add: sscs_def window_def column_def call_column_def tally_def)

section \<open>Conservation of reads\<close>






















text \<open>
  The final output of the sample: two duplex records, one of them made with a
  corrected singleton and one of two singletons that corrected each other, the
  consensus of the family of three, and the singleton left uncorrected.
\<close>

lemma sample_output:
  "map (\<lambda>m. (m_kind m, m_bases m, m_size m, m_reads m)) (all_unique (7 / 10) sample_reads)
   = [(DCS, [BaseA, BaseC, BaseN], 3, [''r1'', ''r2'', ''r3'']),
      (DCS, [BaseT, BaseT], 2, [''r4'', ''r5'']),
      (SSCS, [BaseG, BaseN], 3, [''r7'', ''r8'', ''r9'']),
      (Singleton, [BaseC], 1, [''r6''])]"
  by code_simp



end
